theory Spec2Isabelle
  imports Complex_Main "HOL-Library.Sublist"
begin

section \<open>Data model (app/models/db_schema.py, app/schemas/reconciliation.py)\<close>

text \<open>
  \<open>OrderStatus\<close> and \<open>PaymentStatus\<close> are two enumerations with the same four members;
  one datatype stands for both.
\<close>

datatype txn_status = pending | completed | failed | reconciled

text \<open>
  Primary keys and foreign keys are Python integers. A \<open>Numeric(10, 2)\<close> column is read as a
  \<open>Decimal\<close>, an exact rational. A \<open>Date\<close> is its proleptic ordinal, so that
  \<open>(d1 - d2).days\<close> is the difference of two integers; \<open>None\<close> is kept as a possible value of
  the date and merchant columns because the code tests for it. The audit timestamps
  \<open>created_at\<close> and \<open>updated_at\<close> are clock readings and are not part of the model.
\<close>

record Merchant =
  m_id :: int
  m_merchant_id :: string
  m_merchant_name :: string

record Order =
  o_id :: int
  o_merchant_id :: "int option"
  o_merchant_order_id :: string
  o_amount :: rat
  o_currency :: string
  o_description :: "string option"
  o_order_date :: "int option"
  o_status :: txn_status

record Payment =
  p_id :: int
  p_merchant_id :: "int option"
  p_merchant_order_id :: string
  p_amount :: rat
  p_currency :: string
  p_description :: "string option"
  p_payment_date :: "int option"
  p_status :: txn_status

text \<open>
  The three tables, each in the order in which an unordered \<open>SELECT\<close> returns its rows.
\<close>

record Store =
  merchants :: "Merchant list"
  orders :: "Order list"
  payments :: "Payment list"

text \<open>
  The schema's constraints: \<open>id\<close> is the primary key of each table, and
  \<open>merchant_order_id\<close> (for merchants, \<open>merchant_id\<close>) carries \<open>unique=True\<close>.
\<close>

definition pk_unique :: "Store \<Rightarrow> bool" where
  "pk_unique db \<longleftrightarrow> distinct (map m_id (merchants db)) \<and> distinct (map o_id (orders db))
     \<and> distinct (map p_id (payments db))"

definition keys_unique :: "Store \<Rightarrow> bool" where
  "keys_unique db \<longleftrightarrow> distinct (map m_merchant_id (merchants db))
     \<and> distinct (map o_merchant_order_id (orders db))
     \<and> distinct (map p_merchant_order_id (payments db))"

text \<open>
  \<open>float(d)\<close> of a \<open>Decimal\<close> \<open>d\<close> is written \<open>PyFloat d\<close>: the double nearest to \<open>d\<close>,
  named by the exact value it was converted from. The code never compares or adds floats.
\<close>

datatype py_float = PyFloat rat

record MatchedPair =
  mp_order_id :: int
  mp_payment_id :: int
  mp_merchant_order_id :: string
  mp_amount :: py_float

record ReconciliationResult =
  matched_count :: nat
  matched_pairs :: "MatchedPair list"
  unmatched_orders :: "string list"
  unmatched_payments :: "string list"

text \<open>\<open>HTTPException(status_code, detail)\<close>.\<close>

datatype http_error = HTTPException nat string

section \<open>The matching engine (\<open>reconcile_transactions\<close>, app/main.py)\<close>

text \<open>
  The local variables of the run. Besides the three bookkeeping variables of the source, the
  state holds the objects whose \<open>status\<close> attribute was assigned: they are what the session
  writes back at \<open>db.commit()\<close>.
\<close>

record match_state =
  st_matched_pairs :: "MatchedPair list"
  st_matched_order_ids :: "int set"
  st_matched_payment_ids :: "int set"
  st_dirty_orders :: "Order list"
  st_dirty_payments :: "Payment list"

definition init_state :: match_state where
  "init_state = \<lparr> st_matched_pairs = [], st_matched_order_ids = {}, st_matched_payment_ids = {},
     st_dirty_orders = [], st_dirty_payments = [] \<rparr>"

definition query_completed_orders :: "Store \<Rightarrow> Order list" where
  "query_completed_orders db = filter (\<lambda>x. o_status x = completed) (orders db)"

definition query_completed_payments :: "Store \<Rightarrow> Payment list" where
  "query_completed_payments db = filter (\<lambda>p. p_status p = completed) (payments db)"

text \<open>
  Rule 4: \<open>if order.order_date and payment.payment_date\<close> holds when neither is \<open>None\<close>
  (a \<open>date\<close> object is always true), and then the pair is skipped when
  \<open>abs((payment.payment_date - order.order_date).days) > 3\<close>.
\<close>

definition date_mismatch :: "Order \<Rightarrow> Payment \<Rightarrow> bool" where
  "date_mismatch order' payment =
     (case o_order_date order' of
        None \<Rightarrow> False
      | Some od \<Rightarrow> (case p_payment_date payment of
                     None \<Rightarrow> False
                   | Some pd \<Rightarrow> \<bar>pd - od\<bar> > 3))"

text \<open>
  The inner loop \<open>for payment in payments\<close>: each \<open>continue\<close> goes on with the rest of the
  list, the \<open>break\<close> returns the payment that matched; falling off the end returns \<open>None\<close>.
\<close>

fun scan_payments :: "Order \<Rightarrow> int set \<Rightarrow> Payment list \<Rightarrow> Payment option" where
  "scan_payments order' matched_payment_ids [] = None"
| "scan_payments order' matched_payment_ids (payment # rest) =
     (if p_id payment \<in> matched_payment_ids then scan_payments order' matched_payment_ids rest
      else if p_merchant_order_id payment \<noteq> o_merchant_order_id order'
              \<or> p_merchant_id payment \<noteq> o_merchant_id order'
        then scan_payments order' matched_payment_ids rest
      else if p_amount payment \<noteq> o_amount order'
        then scan_payments order' matched_payment_ids rest
      else if date_mismatch order' payment
        then scan_payments order' matched_payment_ids rest
      else Some payment)"

text \<open>The body executed at \<open>MATCH FOUND\<close>.\<close>

definition record_match :: "Order \<Rightarrow> Payment \<Rightarrow> match_state \<Rightarrow> match_state" where
  "record_match order' payment st =
     \<lparr> st_matched_pairs = st_matched_pairs st @
         [\<lparr> mp_order_id = o_id order', mp_payment_id = p_id payment,
            mp_merchant_order_id = o_merchant_order_id order',
            mp_amount = PyFloat (o_amount order') \<rparr>],
       st_matched_order_ids = insert (o_id order') (st_matched_order_ids st),
       st_matched_payment_ids = insert (p_id payment) (st_matched_payment_ids st),
       st_dirty_orders = st_dirty_orders st @ [order'\<lparr>o_status := reconciled\<rparr>],
       st_dirty_payments = st_dirty_payments st @ [payment\<lparr>p_status := reconciled\<rparr>] \<rparr>"

text \<open>The outer loop \<open>for order in orders\<close>.\<close>

fun match_loop :: "Order list \<Rightarrow> Payment list \<Rightarrow> match_state \<Rightarrow> match_state" where
  "match_loop [] payments' st = st"
| "match_loop (order' # rest) payments' st =
     (case scan_payments order' (st_matched_payment_ids st) payments' of
        None \<Rightarrow> match_loop rest payments' st
      | Some payment \<Rightarrow> match_loop rest payments' (record_match order' payment st))"

text \<open>
  \<open>db.commit()\<close> flushes every modified object as one \<open>UPDATE\<close> of the changed column,
  addressed by primary key, and commits them together.
\<close>

definition flush_order :: "Order \<Rightarrow> Order list \<Rightarrow> Order list" where
  "flush_order obj rows =
     map (\<lambda>r. if o_id r = o_id obj then r\<lparr>o_status := o_status obj\<rparr> else r) rows"

definition flush_payment :: "Payment \<Rightarrow> Payment list \<Rightarrow> Payment list" where
  "flush_payment obj rows =
     map (\<lambda>r. if p_id r = p_id obj then r\<lparr>p_status := p_status obj\<rparr> else r) rows"

definition commit :: "match_state \<Rightarrow> Store \<Rightarrow> Store" where
  "commit st db = db\<lparr> orders := fold flush_order (st_dirty_orders st) (orders db),
                      payments := fold flush_payment (st_dirty_payments st) (payments db) \<rparr>"

text \<open>
  Where the database raises during the run. The whole body is inside one \<open>try\<close>; the
  handler calls \<open>db.rollback()\<close> and raises the 500 error. The two queries, the commit,
  and the attribute reads after the commit (the session built in app/database.py expires
  every object at commit, so \<open>o.id\<close> and \<open>o.merchant_order_id\<close> are loaded again) are the
  places that talk to the database.
\<close>

datatype db_fault = NoFault | QueryFault | CommitFault | ReloadFault

definition reconciliation_error :: http_error where
  "reconciliation_error = HTTPException 500 ''An error occurred during reconciliation''"

definition reconcile_transactions ::
  "db_fault \<Rightarrow> Store \<Rightarrow> (http_error + ReconciliationResult) \<times> Store" where
  "reconcile_transactions fault db =
     (if fault = QueryFault then (Inl reconciliation_error, db)
      else
        let orders' = query_completed_orders db;
            payments' = query_completed_payments db;
            st = match_loop orders' payments' init_state
        in if fault = CommitFault then (Inl reconciliation_error, db)
           else
             let db' = commit st db
             in if fault = ReloadFault then (Inl reconciliation_error, db')
                else
                  (Inr \<lparr> matched_count = length (st_matched_pairs st),
                         matched_pairs = st_matched_pairs st,
                         unmatched_orders = map o_merchant_order_id
                           (filter (\<lambda>x. o_id x \<notin> st_matched_order_ids st) orders'),
                         unmatched_payments = map p_merchant_order_id
                           (filter (\<lambda>p. p_id p \<notin> st_matched_payment_ids st) payments') \<rparr>,
                   db'))"

section \<open>The report (\<open>get_reconciliation_report\<close>, app/main.py)\<close>

text \<open>
  SQL aggregates: \<open>count(id)\<close> counts the rows (a primary key is never \<open>NULL\<close>), and \<open>sum\<close>
  over no rows is \<open>NULL\<close>, read as \<open>None\<close>. The attributes \<open>.count\<close> and \<open>.total\<close> of an
  aggregate row are read as the two labelled columns of that row.
\<close>

definition sql_count :: "'a list \<Rightarrow> nat" where
  "sql_count rows = length rows"

definition sql_sum :: "rat list \<Rightarrow> rat option" where
  "sql_sum vals = (if vals = [] then None else Some (sum_list vals))"

text \<open>\<open>x or 0\<close>: \<open>None\<close> and a zero are both false in Python.\<close>

definition count_or_0 :: "nat \<Rightarrow> nat" where
  "count_or_0 c = (if c = 0 then 0 else c)"

definition total_or_0 :: "rat option \<Rightarrow> rat" where
  "total_or_0 t = (case t of None \<Rightarrow> 0 | Some v \<Rightarrow> if v = 0 then 0 else v)"

text \<open>One entry of \<open>merchants_summary\<close> (a dictionary with these five keys).\<close>

record MerchantSummary =
  ms_merchant_id :: int
  ms_reconciled_count :: nat
  ms_reconciled_amount :: py_float
  ms_unmatched_orders :: nat
  ms_unmatched_payments :: nat

record ReconciliationReport =
  total_reconciled_amount :: py_float
  total_reconciled_count :: nat
  total_unmatched_orders :: nat
  total_unmatched_payments :: nat
  unmatched_orders_amount :: py_float
  unmatched_payments_amount :: py_float
  merchants_summary :: "MerchantSummary list"

text \<open>
  Queries 4 to 6: \<open>GROUP BY merchant_id\<close> over the rows that pass the filter and whose
  \<open>merchant_id\<close> is not \<open>NULL\<close>; one result row per distinct key.
\<close>

definition reconciled_by_merchant :: "Store \<Rightarrow> (int \<times> nat \<times> rat option) list" where
  "reconciled_by_merchant db =
     (let rows = filter (\<lambda>p. p_status p = reconciled \<and> p_merchant_id p \<noteq> None) (payments db)
      in map (\<lambda>k. (k, sql_count (filter (\<lambda>p. p_merchant_id p = Some k) rows),
                      sql_sum (map p_amount (filter (\<lambda>p. p_merchant_id p = Some k) rows))))
             (remdups (List.map_filter p_merchant_id rows)))"

definition unmatched_orders_by_merchant :: "Store \<Rightarrow> (int \<times> nat) list" where
  "unmatched_orders_by_merchant db =
     (let rows = filter (\<lambda>x. o_status x = completed \<and> o_merchant_id x \<noteq> None) (orders db)
      in map (\<lambda>k. (k, sql_count (filter (\<lambda>x. o_merchant_id x = Some k) rows)))
             (remdups (List.map_filter o_merchant_id rows)))"

definition unmatched_payments_by_merchant :: "Store \<Rightarrow> (int \<times> nat) list" where
  "unmatched_payments_by_merchant db =
     (let rows = filter (\<lambda>p. p_status p = completed \<and> p_merchant_id p \<noteq> None) (payments db)
      in map (\<lambda>k. (k, sql_count (filter (\<lambda>p. p_merchant_id p = Some k) rows)))
             (remdups (List.map_filter p_merchant_id rows)))"

text \<open>A dictionary comprehension over rows: a later row with the same key replaces an earlier one.\<close>

definition dict_of :: "('k \<times> 'v) list \<Rightarrow> ('k \<rightharpoonup> 'v)" where
  "dict_of rows = map_of (rev rows)"

definition report_error :: http_error where
  "report_error = HTTPException 500 ''An error occurred while generating the report''"

text \<open>
  The flag says whether a query raises; the handler then raises the 500 error. The rows of
  \<open>merchants_summary\<close> follow the iteration of a Python set, whose order the language leaves
  open: the model lists the keys in order of first appearance, and the properties below are
  about the set of rows.
\<close>

definition get_reconciliation_report :: "bool \<Rightarrow> Store \<Rightarrow> http_error + ReconciliationReport" where
  "get_reconciliation_report query_raises db =
     (if query_raises then Inl report_error
      else
        let reconciled_rows = filter (\<lambda>p. p_status p = reconciled) (payments db);
            reconciled_count = count_or_0 (sql_count reconciled_rows);
            reconciled_amount = PyFloat (total_or_0 (sql_sum (map p_amount reconciled_rows)));
            unmatched_order_rows = filter (\<lambda>x. o_status x = completed) (orders db);
            unmatched_orders_count = count_or_0 (sql_count unmatched_order_rows);
            unmatched_orders_amount' =
              PyFloat (total_or_0 (sql_sum (map o_amount unmatched_order_rows)));
            unmatched_payment_rows = filter (\<lambda>p. p_status p = completed) (payments db);
            unmatched_payments_count = count_or_0 (sql_count unmatched_payment_rows);
            unmatched_payments_amount' =
              PyFloat (total_or_0 (sql_sum (map p_amount unmatched_payment_rows)));
            reconciled_dict = dict_of (map (\<lambda>row. (fst row,
                (fst (snd row), PyFloat (total_or_0 (snd (snd row))))))
                (reconciled_by_merchant db));
            unmatched_orders_dict = dict_of (unmatched_orders_by_merchant db);
            unmatched_payments_dict = dict_of (unmatched_payments_by_merchant db);
            all_merchant_ids = remdups (map fst (reconciled_by_merchant db)
                @ map fst (unmatched_orders_by_merchant db)
                @ map fst (unmatched_payments_by_merchant db));
            merchants_summary' = map (\<lambda>merchant_id.
                \<lparr> ms_merchant_id = merchant_id,
                  ms_reconciled_count =
                    (case reconciled_dict merchant_id of None \<Rightarrow> 0 | Some d \<Rightarrow> fst d),
                  ms_reconciled_amount =
                    (case reconciled_dict merchant_id of None \<Rightarrow> PyFloat 0 | Some d \<Rightarrow> snd d),
                  ms_unmatched_orders =
                    (case unmatched_orders_dict merchant_id of None \<Rightarrow> 0 | Some c \<Rightarrow> c),
                  ms_unmatched_payments =
                    (case unmatched_payments_dict merchant_id of None \<Rightarrow> 0 | Some c \<Rightarrow> c) \<rparr>)
                all_merchant_ids
        in Inr \<lparr> total_reconciled_amount = reconciled_amount,
                 total_reconciled_count = reconciled_count,
                 total_unmatched_orders = unmatched_orders_count,
                 total_unmatched_payments = unmatched_payments_count,
                 unmatched_orders_amount = unmatched_orders_amount',
                 unmatched_payments_amount = unmatched_payments_amount',
                 merchants_summary = merchants_summary' \<rparr>)"

section \<open>Creating records (\<open>create_merchant\<close>, \<open>create_order\<close>, \<open>create_payment\<close>)\<close>

record MerchantCreate =
  mc_merchant_id :: string
  mc_merchant_name :: string

record OrderCreate =
  oc_merchant_id :: string
  oc_merchant_order_id :: string
  oc_amount :: rat
  oc_currency :: string
  oc_description :: "string option"
  oc_order_date :: int
  oc_status :: txn_status

record PaymentCreate =
  pc_merchant_id :: string
  pc_merchant_order_id :: string
  pc_amount :: rat
  pc_currency :: string
  pc_description :: "string option"
  pc_payment_date :: int
  pc_status :: txn_status

text \<open>
  What \<open>db.add\<close>, \<open>db.commit\<close> and \<open>db.refresh\<close> can raise: an \<open>IntegrityError\<close> carrying the
  driver's message (\<open>str(e.orig)\<close>), or anything else.
\<close>

datatype db_error = IntegrityError string | OtherError

definition quoted :: "string \<Rightarrow> string" where
  "quoted s = CHR 0x27 # s @ [CHR 0x27]"

text \<open>
  The message of MySQL for a violated unique index names the value and the index. The
  column \<open>merchant_order_id\<close> is declared \<open>unique=True, index=True\<close>, for which the index is
  named \<open>ix_<table>_merchant_order_id\<close>.
\<close>

definition duplicate_entry :: "string \<Rightarrow> string \<Rightarrow> string" where
  "duplicate_entry val key = ''Duplicate entry '' @ quoted val @ '' for key '' @ quoted key"

text \<open>\<open>AUTO_INCREMENT\<close>: a key above every key of the table.\<close>

definition next_id :: "int list \<Rightarrow> int" where
  "next_id ids = fold max ids 0 + 1"

text \<open>
  Saving a new row. The flag says whether the database raises something other than an
  \<open>IntegrityError\<close>. On success the row is returned with its key, as \<open>db.refresh\<close> loads it.
\<close>

definition save_merchant :: "bool \<Rightarrow> Merchant \<Rightarrow> Store \<Rightarrow> db_error + (Merchant \<times> Store)" where
  "save_merchant raises row db =
     (if raises then Inl OtherError
      else if m_merchant_id row \<in> set (map m_merchant_id (merchants db))
        then Inl (IntegrityError (duplicate_entry (m_merchant_id row) ''merchants.ix_merchants_merchant_id''))
      else let row' = row\<lparr>m_id := next_id (map m_id (merchants db))\<rparr>
           in Inr (row', db\<lparr>merchants := merchants db @ [row']\<rparr>))"

definition save_order :: "bool \<Rightarrow> Order \<Rightarrow> Store \<Rightarrow> db_error + (Order \<times> Store)" where
  "save_order raises row db =
     (if raises then Inl OtherError
      else if o_merchant_order_id row \<in> set (map o_merchant_order_id (orders db))
        then Inl (IntegrityError
               (duplicate_entry (o_merchant_order_id row) ''orders.ix_orders_merchant_order_id''))
      else let row' = row\<lparr>o_id := next_id (map o_id (orders db))\<rparr>
           in Inr (row', db\<lparr>orders := orders db @ [row']\<rparr>))"

definition save_payment :: "bool \<Rightarrow> Payment \<Rightarrow> Store \<Rightarrow> db_error + (Payment \<times> Store)" where
  "save_payment raises row db =
     (if raises then Inl OtherError
      else if p_merchant_order_id row \<in> set (map p_merchant_order_id (payments db))
        then Inl (IntegrityError
               (duplicate_entry (p_merchant_order_id row) ''payments.ix_payments_merchant_order_id''))
      else let row' = row\<lparr>p_id := next_id (map p_id (payments db))\<rparr>
           in Inr (row', db\<lparr>payments := payments db @ [row']\<rparr>))"

definition HTTP_400_BAD_REQUEST :: nat where "HTTP_400_BAD_REQUEST = 400"
definition HTTP_404_NOT_FOUND :: nat where "HTTP_404_NOT_FOUND = 404"
definition HTTP_409_CONFLICT :: nat where "HTTP_409_CONFLICT = 409"
definition HTTP_500_INTERNAL_SERVER_ERROR :: nat where "HTTP_500_INTERNAL_SERVER_ERROR = 500"

text \<open>
  \<open>create_merchant\<close> looks the business identifier up first and raises 409 when it exists;
  any other exception is answered by a rollback and the 500 error.
\<close>

definition create_merchant ::
  "bool \<Rightarrow> MerchantCreate \<Rightarrow> Store \<Rightarrow> (http_error + Merchant) \<times> Store" where
  "create_merchant raises merchant db =
     (case find (\<lambda>m. m_merchant_id m = mc_merchant_id merchant) (merchants db) of
        Some existing \<Rightarrow>
          (Inl (HTTPException HTTP_409_CONFLICT
             (''Merchant '' @ quoted (mc_merchant_id merchant) @ '' already exists'')), db)
      | None \<Rightarrow>
          (case save_merchant raises
                  \<lparr> m_id = 0, m_merchant_id = mc_merchant_id merchant,
                    m_merchant_name = mc_merchant_name merchant \<rparr> db of
             Inr (db_merchant, db') \<Rightarrow> (Inr db_merchant, db')
           | Inl e \<Rightarrow>
               (Inl (HTTPException HTTP_500_INTERNAL_SERVER_ERROR
                  ''An unexpected error occurred''), db)))"

text \<open>
  \<open>create_order\<close>: step 1 looks the merchant up and raises 404; step 2 builds the row with
  the merchant's key; step 3 saves it, and the handlers answer an \<open>IntegrityError\<close> with a
  rollback and status 400, any other exception with a rollback and status 500.
\<close>

definition create_order ::
  "bool \<Rightarrow> OrderCreate \<Rightarrow> Store \<Rightarrow> (http_error + Order) \<times> Store" where
  "create_order raises order' db =
     (case find (\<lambda>m. m_merchant_id m = oc_merchant_id order') (merchants db) of
        None \<Rightarrow>
          (Inl (HTTPException HTTP_404_NOT_FOUND
             (''Merchant with merchant_id '' @ quoted (oc_merchant_id order') @ '' not found'')), db)
      | Some merchant \<Rightarrow>
          (case save_order raises
                  \<lparr> o_id = 0, o_merchant_id = Some (m_id merchant),
                    o_merchant_order_id = oc_merchant_order_id order',
                    o_amount = oc_amount order', o_currency = oc_currency order',
                    o_description = oc_description order',
                    o_order_date = Some (oc_order_date order'),
                    o_status = oc_status order' \<rparr> db of
             Inr (db_order, db') \<Rightarrow> (Inr db_order, db')
           | Inl (IntegrityError orig) \<Rightarrow>
               (if sublist ''merchant_order_id'' orig
                then (Inl (HTTPException HTTP_400_BAD_REQUEST
                        (''Order with merchant_order_id '' @ quoted (oc_merchant_order_id order')
                           @ '' already exists'')), db)
                else (Inl (HTTPException HTTP_400_BAD_REQUEST
                        ''Database constraint violation''), db))
           | Inl OtherError \<Rightarrow>
               (Inl (HTTPException HTTP_500_INTERNAL_SERVER_ERROR
                  ''An unexpected error occurred''), db)))"

definition create_payment ::
  "bool \<Rightarrow> PaymentCreate \<Rightarrow> Store \<Rightarrow> (http_error + Payment) \<times> Store" where
  "create_payment raises payment db =
     (case find (\<lambda>m. m_merchant_id m = pc_merchant_id payment) (merchants db) of
        None \<Rightarrow>
          (Inl (HTTPException HTTP_404_NOT_FOUND
             (''Merchant with merchant_id '' @ quoted (pc_merchant_id payment) @ '' not found'')), db)
      | Some merchant \<Rightarrow>
          (case save_payment raises
                  \<lparr> p_id = 0, p_merchant_id = Some (m_id merchant),
                    p_merchant_order_id = pc_merchant_order_id payment,
                    p_amount = pc_amount payment, p_currency = pc_currency payment,
                    p_description = pc_description payment,
                    p_payment_date = Some (pc_payment_date payment),
                    p_status = pc_status payment \<rparr> db of
             Inr (db_payment, db') \<Rightarrow> (Inr db_payment, db')
           | Inl (IntegrityError orig) \<Rightarrow>
               (if sublist ''merchant_order_id'' orig
                then (Inl (HTTPException HTTP_400_BAD_REQUEST
                        (''Payment with merchant_order_id '' @ quoted (pc_merchant_order_id payment)
                           @ '' already exists'')), db)
                else (Inl (HTTPException HTTP_400_BAD_REQUEST
                        ''Database constraint violation''), db))
           | Inl OtherError \<Rightarrow>
               (Inl (HTTPException HTTP_500_INTERNAL_SERVER_ERROR
                  ''An unexpected error occurred''), db)))"

section \<open>The matching rules in the words of the specification\<close>

text \<open>
  Rule 2: identical merchant order identifier and identical resolved merchant reference.
  Rule 3: amounts exactly equal. Rule 4: when both dates are present, the absolute
  difference in days is at most 3; otherwise the rule counts as satisfied.
\<close>

definition spec_rule2 :: "Order \<Rightarrow> Payment \<Rightarrow> bool" where
  "spec_rule2 x p \<longleftrightarrow> p_merchant_order_id p = o_merchant_order_id x
     \<and> p_merchant_id p = o_merchant_id x"

definition spec_rule3 :: "Order \<Rightarrow> Payment \<Rightarrow> bool" where
  "spec_rule3 x p \<longleftrightarrow> p_amount p = o_amount x"

definition spec_rule4 :: "Order \<Rightarrow> Payment \<Rightarrow> bool" where
  "spec_rule4 x p \<longleftrightarrow>
     (case (o_order_date x, p_payment_date p) of
        (Some od, Some pd) \<Rightarrow> \<bar>pd - od\<bar> \<le> 3
      | _ \<Rightarrow> True)"

text \<open>
  First fit: for each order in read order, the first payment in read order that is not the
  payment of a pair already recorded (rule 1) and satisfies rules 2 to 4; the pair is
  recorded and the scan for this order ends.
\<close>

fun spec_first_fit :: "Order list \<Rightarrow> Payment list \<Rightarrow> MatchedPair list \<Rightarrow> MatchedPair list" where
  "spec_first_fit [] ps recorded = recorded"
| "spec_first_fit (x # xs) ps recorded =
     (case find (\<lambda>p. p_id p \<notin> set (map mp_payment_id recorded)
                     \<and> spec_rule2 x p \<and> spec_rule3 x p \<and> spec_rule4 x p) ps of
        None \<Rightarrow> spec_first_fit xs ps recorded
      | Some p \<Rightarrow> spec_first_fit xs ps
          (recorded @ [\<lparr> mp_order_id = o_id x, mp_payment_id = p_id p,
                          mp_merchant_order_id = o_merchant_order_id x,
                          mp_amount = PyFloat (o_amount x) \<rparr>]))"

section \<open>Auxiliary notions for the proofs\<close>

text \<open>Rules 2 to 4 as the loop tests them: a payment is accepted when no \<open>continue\<close> fires.\<close>

definition accepts :: "Order \<Rightarrow> Payment \<Rightarrow> bool" where
  "accepts order' payment \<longleftrightarrow>
     p_merchant_order_id payment = o_merchant_order_id order'
     \<and> p_merchant_id payment = o_merchant_id order'
     \<and> p_amount payment = o_amount order'
     \<and> \<not> date_mismatch order' payment"

definition mk_pair :: "Order \<times> Payment \<Rightarrow> MatchedPair" where
  "mk_pair m = \<lparr> mp_order_id = o_id (fst m), mp_payment_id = p_id (snd m),
      mp_merchant_order_id = o_merchant_order_id (fst m),
      mp_amount = PyFloat (o_amount (fst m)) \<rparr>"

text \<open>The matches of a run as a list of (order, payment) objects, in order of discovery.\<close>

fun matches :: "Order list \<Rightarrow> Payment list \<Rightarrow> int set \<Rightarrow> (Order \<times> Payment) list" where
  "matches [] ps M = []"
| "matches (x # xs) ps M =
     (case scan_payments x M ps of
        None \<Rightarrow> matches xs ps M
      | Some p \<Rightarrow> (x, p) # matches xs ps (insert (p_id p) M))"

definition run_matches :: "Store \<Rightarrow> (Order \<times> Payment) list" where
  "run_matches db = matches (query_completed_orders db) (query_completed_payments db) {}"

text \<open>
  The ids matched by a run on a store, and the store after the commit of that run: the rows
  with a matched id have become reconciled.
\<close>

definition matched_order_ids :: "Store \<Rightarrow> int set" where
  "matched_order_ids db = set (map (o_id \<circ> fst) (run_matches db))"

definition matched_payment_ids :: "Store \<Rightarrow> int set" where
  "matched_payment_ids db = set (map (p_id \<circ> snd) (run_matches db))"

definition committed :: "Store \<Rightarrow> Store" where
  "committed db = db\<lparr>
     orders := map (\<lambda>r. if o_id r \<in> matched_order_ids db then r\<lparr>o_status := reconciled\<rparr> else r)
                 (orders db),
     payments := map (\<lambda>r. if p_id r \<in> matched_payment_ids db then r\<lparr>p_status := reconciled\<rparr> else r)
                 (payments db) \<rparr>"

section \<open>The scenarios of the specification as a store\<close>

text \<open>
  Merchant \<open>M1\<close>; order and payment \<open>ORDER_001\<close> (100.00, 2025-01-29 and 2025-01-30) match;
  \<open>ORDER_002\<close> has a payment seven days later; \<open>ORDER_003\<close> is paid 99.99 for 100.00;
  \<open>ORDER_004\<close> is still pending while its payment is completed; \<open>ORDER_005\<close> was reconciled
  by an earlier run; \<open>ORDER_006\<close> matches its payment of three days later. Dates are ordinals
  (2025-01-29 is day 739280).
\<close>

definition merchant_M1 :: Merchant where
  "merchant_M1 = \<lparr> m_id = 1, m_merchant_id = ''M1'', m_merchant_name = ''Merchant One'' \<rparr>"

definition mk_order :: "int \<Rightarrow> string \<Rightarrow> rat \<Rightarrow> int \<Rightarrow> txn_status \<Rightarrow> Order" where
  "mk_order i ref amt day st = \<lparr> o_id = i, o_merchant_id = Some 1, o_merchant_order_id = ref,
     o_amount = amt, o_currency = ''USD'', o_description = None, o_order_date = Some day,
     o_status = st \<rparr>"

definition mk_payment :: "int \<Rightarrow> string \<Rightarrow> rat \<Rightarrow> int \<Rightarrow> txn_status \<Rightarrow> Payment" where
  "mk_payment i ref amt day st = \<lparr> p_id = i, p_merchant_id = Some 1, p_merchant_order_id = ref,
     p_amount = amt, p_currency = ''USD'', p_description = None, p_payment_date = Some day,
     p_status = st \<rparr>"

definition scenario_store :: Store where
  "scenario_store = \<lparr> merchants = [merchant_M1],
     orders = [mk_order 1 ''ORDER_001'' 100 739280 completed,
               mk_order 2 ''ORDER_002'' 100 739280 completed,
               mk_order 3 ''ORDER_003'' 100 739280 completed,
               mk_order 4 ''ORDER_004'' 50 739280 pending,
               mk_order 5 ''ORDER_005'' 75 739280 reconciled,
               mk_order 6 ''ORDER_006'' 20 739280 completed],
     payments = [mk_payment 11 ''ORDER_001'' 100 739281 completed,
                 mk_payment 12 ''ORDER_002'' 100 739287 completed,
                 mk_payment 13 ''ORDER_003'' (9999 / 100) 739280 completed,
                 mk_payment 14 ''ORDER_004'' 50 739280 completed,
                 mk_payment 15 ''ORDER_005'' 75 739281 reconciled,
                 mk_payment 16 ''ORDER_006'' 20 739283 completed] \<rparr>"

definition scenario_pair :: MatchedPair where
  "scenario_pair = \<lparr> mp_order_id = 1, mp_payment_id = 11, mp_merchant_order_id = ''ORDER_001'',
     mp_amount = PyFloat 100 \<rparr>"

definition scenario_pair2 :: MatchedPair where
  "scenario_pair2 = \<lparr> mp_order_id = 6, mp_payment_id = 16, mp_merchant_order_id = ''ORDER_006'',
     mp_amount = PyFloat 20 \<rparr>"

definition scenario_result :: ReconciliationResult where
  "scenario_result = \<lparr> matched_count = 2, matched_pairs = [scenario_pair, scenario_pair2],
     unmatched_orders = [''ORDER_002'', ''ORDER_003''],
     unmatched_payments = [''ORDER_002'', ''ORDER_003'', ''ORDER_004''] \<rparr>"

text \<open>The store after the run: orders 1 and 6 and payments 11 and 16 are reconciled.\<close>

definition scenario_store' :: Store where
  "scenario_store' = \<lparr> merchants = [merchant_M1],
     orders = [mk_order 1 ''ORDER_001'' 100 739280 reconciled,
               mk_order 2 ''ORDER_002'' 100 739280 completed,
               mk_order 3 ''ORDER_003'' 100 739280 completed,
               mk_order 4 ''ORDER_004'' 50 739280 pending,
               mk_order 5 ''ORDER_005'' 75 739280 reconciled,
               mk_order 6 ''ORDER_006'' 20 739280 reconciled],
     payments = [mk_payment 11 ''ORDER_001'' 100 739281 reconciled,
                 mk_payment 12 ''ORDER_002'' 100 739287 completed,
                 mk_payment 13 ''ORDER_003'' (9999 / 100) 739280 completed,
                 mk_payment 14 ''ORDER_004'' 50 739280 completed,
                 mk_payment 15 ''ORDER_005'' 75 739281 reconciled,
                 mk_payment 16 ''ORDER_006'' 20 739283 reconciled] \<rparr>"

text \<open>Requests that repeat the identifier \<open>ORDER_001\<close>, and one that repeats merchant \<open>M1\<close>.\<close>

definition duplicate_order_request :: OrderCreate where
  "duplicate_order_request = \<lparr> oc_merchant_id = ''M1'', oc_merchant_order_id = ''ORDER_001'',
     oc_amount = 100, oc_currency = ''USD'', oc_description = None, oc_order_date = 739280,
     oc_status = pending \<rparr>"

definition duplicate_payment_request :: PaymentCreate where
  "duplicate_payment_request = \<lparr> pc_merchant_id = ''M1'', pc_merchant_order_id = ''ORDER_001'',
     pc_amount = 100, pc_currency = ''USD'', pc_description = None, pc_payment_date = 739281,
     pc_status = pending \<rparr>"

definition duplicate_merchant_request :: MerchantCreate where
  "duplicate_merchant_request = \<lparr> mc_merchant_id = ''M1'', mc_merchant_name = ''Merchant One'' \<rparr>"

text \<open>The empty store, and a store with one completed order and no payment.\<close>

definition empty_store :: Store where
  "empty_store = \<lparr> merchants = [], orders = [], payments = [] \<rparr>"

definition one_order_store :: Store where
  "one_order_store = \<lparr> merchants = [merchant_M1],
     orders = [mk_order 1 ''ORDER_001'' 100 739280 completed], payments = [] \<rparr>"

text \<open>The report on the store with one completed order.\<close>

definition one_order_report :: ReconciliationReport where
  "one_order_report = \<lparr> total_reconciled_amount = PyFloat 0, total_reconciled_count = 0,
            total_unmatched_orders = 1, total_unmatched_payments = 0,
            unmatched_orders_amount = PyFloat 100, unmatched_payments_amount = PyFloat 0,
            merchants_summary = [\<lparr> ms_merchant_id = 1, ms_reconciled_count = 0,
               ms_reconciled_amount = PyFloat 0, ms_unmatched_orders = 1,
               ms_unmatched_payments = 0 \<rparr>] \<rparr>"

section \<open>The inner and the outer loop\<close>

lemma scan_payments_find:
  "scan_payments order' M ps = List.find (\<lambda>p. p_id p \<notin> M \<and> accepts order' p) ps"
  by (induction ps) (auto simp: accepts_def)

lemma match_loop_matches:
  "match_loop xs ps st =
     \<lparr> st_matched_pairs = st_matched_pairs st @ map mk_pair (matches xs ps (st_matched_payment_ids st)),
       st_matched_order_ids = st_matched_order_ids st
          \<union> set (map (o_id \<circ> fst) (matches xs ps (st_matched_payment_ids st))),
       st_matched_payment_ids = st_matched_payment_ids st
          \<union> set (map (p_id \<circ> snd) (matches xs ps (st_matched_payment_ids st))),
       st_dirty_orders = st_dirty_orders st
          @ map (\<lambda>m. (fst m)\<lparr>o_status := reconciled\<rparr>) (matches xs ps (st_matched_payment_ids st)),
       st_dirty_payments = st_dirty_payments st
          @ map (\<lambda>m. (snd m)\<lparr>p_status := reconciled\<rparr>) (matches xs ps (st_matched_payment_ids st)) \<rparr>"
proof (induction xs arbitrary: st)
  case Nil
  show ?case by simp
next
  case (Cons x xs)
  show ?case
  proof (cases "scan_payments x (st_matched_payment_ids st) ps")
    case None
    then show ?thesis using Cons.IH [of st] by simp
  next
    case (Some p)
    then show ?thesis using Cons.IH [of "record_match x p st"]
      by (simp add: record_match_def mk_pair_def)
  qed
qed

lemma scan_payments_Some:
  "scan_payments x M ps = Some p \<Longrightarrow> p \<in> set ps \<and> p_id p \<notin> M \<and> accepts x p"
  unfolding scan_payments_find by (auto simp: find_Some_iff)

lemma scan_payments_None:
  "scan_payments x M ps = None \<longleftrightarrow> (\<forall>p\<in>set ps. p_id p \<in> M \<or> \<not> accepts x p)"
  unfolding scan_payments_find by (auto simp: find_None_iff)

lemma matches_sound:
  "(x, p) \<in> set (matches xs ps M) \<Longrightarrow> x \<in> set xs \<and> p \<in> set ps \<and> p_id p \<notin> M \<and> accepts x p"
proof (induction xs arbitrary: M)
  case Nil
  then show ?case by simp
next
  case (Cons y ys)
  show ?case
  proof (cases "scan_payments y M ps")
    case None
    with Cons show ?thesis by auto
  next
    case (Some q)
    from scan_payments_Some [OF Some] have q: "q \<in> set ps" "p_id q \<notin> M" "accepts y q" by auto
    from Cons.prems Some have "(x, p) = (y, q) \<or> (x, p) \<in> set (matches ys ps (insert (p_id q) M))"
      by simp
    then show ?thesis
    proof
      assume "(x, p) = (y, q)" with q show ?thesis by simp
    next
      assume "(x, p) \<in> set (matches ys ps (insert (p_id q) M))"
      from Cons.IH [OF this] show ?thesis by simp
    qed
  qed
qed

lemma matches_payment_ids_distinct:
  "distinct (map (p_id \<circ> snd) (matches xs ps M))"
proof (induction xs arbitrary: M)
  case Nil
  show ?case by simp
next
  case (Cons y ys)
  show ?case
  proof (cases "scan_payments y M ps")
    case None
    with Cons show ?thesis by simp
  next
    case (Some q)
    have "p_id q \<notin> set (map (p_id \<circ> snd) (matches ys ps (insert (p_id q) M)))"
      using matches_sound [of _ _ ys ps "insert (p_id q) M"] by fastforce
    with Some Cons.IH [of "insert (p_id q) M"] show ?thesis by simp
  qed
qed

lemma matches_orders_subset:
  "fst ` set (matches xs ps M) \<subseteq> set xs"
  using matches_sound by fastforce

lemma match_loop_init:
  "match_loop (query_completed_orders db) (query_completed_payments db) init_state =
     \<lparr> st_matched_pairs = map mk_pair (run_matches db),
       st_matched_order_ids = set (map (o_id \<circ> fst) (run_matches db)),
       st_matched_payment_ids = set (map (p_id \<circ> snd) (run_matches db)),
       st_dirty_orders = map (\<lambda>m. (fst m)\<lparr>o_status := reconciled\<rparr>) (run_matches db),
       st_dirty_payments = map (\<lambda>m. (snd m)\<lparr>p_status := reconciled\<rparr>) (run_matches db) \<rparr>"
  by (simp add: match_loop_matches init_state_def run_matches_def)

lemma reconcile_result:
  assumes "fst (reconcile_transactions fault db) = Inr res"
  shows "res = \<lparr> matched_count = length (run_matches db),
                 matched_pairs = map mk_pair (run_matches db),
                 unmatched_orders = map o_merchant_order_id
                   (filter (\<lambda>x. o_id x \<notin> set (map (o_id \<circ> fst) (run_matches db)))
                      (query_completed_orders db)),
                 unmatched_payments = map p_merchant_order_id
                   (filter (\<lambda>p. p_id p \<notin> set (map (p_id \<circ> snd) (run_matches db)))
                      (query_completed_payments db)) \<rparr>"
  using assms
  by (cases fault) (simp_all add: reconcile_transactions_def Let_def match_loop_init)

lemma reconcile_NoFault_result:
  "\<exists>res. fst (reconcile_transactions NoFault db) = Inr res"
  by (simp add: reconcile_transactions_def Let_def)

lemma run_matches_sound:
  assumes "(x, p) \<in> set (run_matches db)"
  shows "x \<in> set (orders db)" "p \<in> set (payments db)" "o_status x = completed"
    "p_status p = completed" "accepts x p"
  using matches_sound [of x p "query_completed_orders db" "query_completed_payments db" "{}"] assms
  by (auto simp: run_matches_def query_completed_orders_def query_completed_payments_def)

lemma mp_order_id_mk_pair: "map mp_order_id (map mk_pair ms) = map (o_id \<circ> fst) ms"
  by (simp add: mk_pair_def comp_def)

lemma mp_payment_id_mk_pair: "map mp_payment_id (map mk_pair ms) = map (p_id \<circ> snd) ms"
  by (simp add: mk_pair_def comp_def)

lemma mp_merchant_order_id_mk_pair:
  "map mp_merchant_order_id (map mk_pair ms) = map (o_merchant_order_id \<circ> fst) ms"
  by (simp add: mk_pair_def comp_def)

lemma distinct_map_eqD:
  "distinct (map f xs) \<Longrightarrow> x \<in> set xs \<Longrightarrow> y \<in> set xs \<Longrightarrow> f x = f y \<Longrightarrow> x = y"
  by (meson distinct_map inj_onD)

lemma matches_order_key_distinct:
  "distinct (map f xs) \<Longrightarrow> distinct (map (f \<circ> fst) (matches xs ps M))"
proof (induction xs arbitrary: M)
  case Nil
  show ?case by simp
next
  case (Cons y ys)
  from Cons.prems have d: "distinct (map f ys)" and n: "f y \<notin> f ` set ys" by auto
  show ?case
  proof (cases "scan_payments y M ps")
    case None
    with Cons.IH [OF d] show ?thesis by simp
  next
    case (Some q)
    have "f y \<notin> set (map (f \<circ> fst) (matches ys ps (insert (p_id q) M)))"
      using n matches_orders_subset [of ys ps "insert (p_id q) M"] by auto
    with Some Cons.IH [OF d, of "insert (p_id q) M"] show ?thesis by simp
  qed
qed

section \<open>The scenario, evaluated\<close>

lemmas scenario_defs = scenario_store_def scenario_store'_def scenario_result_def scenario_pair_def
  scenario_pair2_def
  mk_order_def mk_payment_def merchant_M1_def

lemma scenario_run:
  "reconcile_transactions NoFault scenario_store = (Inr scenario_result, scenario_store')"
  by (simp add: reconcile_transactions_def Let_def scenario_defs query_completed_orders_def
      query_completed_payments_def init_state_def date_mismatch_def record_match_def commit_def
      flush_order_def flush_payment_def)

lemma scenario_pk_unique: "pk_unique scenario_store"
  by (simp add: pk_unique_def scenario_defs)

lemma scenario_keys_unique: "keys_unique scenario_store"
  by (simp add: keys_unique_def scenario_defs)

section \<open>Rule conformance\<close>

text \<open>
  C1. Every pair recorded by a run of \<open>reconcile_transactions\<close> names one order and one
  payment of the store; they have equal amounts, equal merchant references and the same
  merchant order identifier (which is also the one recorded in the pair), and when both
  dates are present they are at most 3 days apart.
\<close>

theorem matched_pairs_conform:
  assumes uniq: "pk_unique db"
    and run: "fst (reconcile_transactions fault db) = Inr res"
    and mem: "mp \<in> set (matched_pairs res)"
  shows "(\<exists>x\<in>set (orders db). o_id x = mp_order_id mp)
       \<and> (\<exists>p\<in>set (payments db). p_id p = mp_payment_id mp)
       \<and> (\<forall>x\<in>set (orders db). \<forall>p\<in>set (payments db).
            o_id x = mp_order_id mp \<and> p_id p = mp_payment_id mp \<longrightarrow>
              o_amount x = p_amount p
            \<and> o_merchant_id x = p_merchant_id p
            \<and> o_merchant_order_id x = p_merchant_order_id p
            \<and> mp_merchant_order_id mp = o_merchant_order_id x
            \<and> (\<forall>od pd. o_order_date x = Some od \<and> p_payment_date p = Some pd
                  \<longrightarrow> \<bar>pd - od\<bar> \<le> 3))"
proof -
  from reconcile_result [OF run] have "matched_pairs res = map mk_pair (run_matches db)"
    by simp
  with mem obtain x0 p0 where m: "(x0, p0) \<in> set (run_matches db)" and mp: "mp = mk_pair (x0, p0)"
    by auto
  note s = run_matches_sound [OF m]
  have ids: "mp_order_id mp = o_id x0" "mp_payment_id mp = p_id p0"
    "mp_merchant_order_id mp = o_merchant_order_id x0"
    using mp by (simp_all add: mk_pair_def)
  have good: "o_amount x0 = p_amount p0 \<and> o_merchant_id x0 = p_merchant_id p0
      \<and> o_merchant_order_id x0 = p_merchant_order_id p0
      \<and> (\<forall>od pd. o_order_date x0 = Some od \<and> p_payment_date p0 = Some pd \<longrightarrow> \<bar>pd - od\<bar> \<le> 3)"
    using s(5) by (auto simp: accepts_def date_mismatch_def)
  have only: "x = x0 \<and> p = p0"
    if "x \<in> set (orders db)" "p \<in> set (payments db)" "o_id x = mp_order_id mp"
      "p_id p = mp_payment_id mp" for x p
    using that uniq s(1,2) ids
    by (auto simp: pk_unique_def dest: distinct_map_eqD)
  show ?thesis
  proof (intro conjI)
    show "\<exists>x\<in>set (orders db). o_id x = mp_order_id mp" using s(1) ids by auto
    show "\<exists>p\<in>set (payments db). p_id p = mp_payment_id mp" using s(2) ids by auto
    show "\<forall>x\<in>set (orders db). \<forall>p\<in>set (payments db).
            o_id x = mp_order_id mp \<and> p_id p = mp_payment_id mp \<longrightarrow>
              o_amount x = p_amount p
            \<and> o_merchant_id x = p_merchant_id p
            \<and> o_merchant_order_id x = p_merchant_order_id p
            \<and> mp_merchant_order_id mp = o_merchant_order_id x
            \<and> (\<forall>od pd. o_order_date x = Some od \<and> p_payment_date p = Some pd
                  \<longrightarrow> \<bar>pd - od\<bar> \<le> 3)"
    proof (intro ballI impI)
      fix x p
      assume a: "x \<in> set (orders db)" "p \<in> set (payments db)"
        "o_id x = mp_order_id mp \<and> p_id p = mp_payment_id mp"
      then have "x = x0 \<and> p = p0" using only by blast
      then show "o_amount x = p_amount p
            \<and> o_merchant_id x = p_merchant_id p
            \<and> o_merchant_order_id x = p_merchant_order_id p
            \<and> mp_merchant_order_id mp = o_merchant_order_id x
            \<and> (\<forall>od pd. o_order_date x = Some od \<and> p_payment_date p = Some pd
                  \<longrightarrow> \<bar>pd - od\<bar> \<le> 3)"
        using good ids by simp
    qed
  qed
qed


theorem matched_pairs_conform_witness:
  "pk_unique scenario_store
   \<and> fst (reconcile_transactions NoFault scenario_store) = Inr scenario_result
   \<and> scenario_pair \<in> set (matched_pairs scenario_result)
   \<and> o_amount (orders scenario_store ! 0) = p_amount (payments scenario_store ! 0)
   \<and> o_merchant_id (orders scenario_store ! 0) = p_merchant_id (payments scenario_store ! 0)
   \<and> o_merchant_order_id (orders scenario_store ! 0)
       = p_merchant_order_id (payments scenario_store ! 0)
   \<and> mp_merchant_order_id scenario_pair = o_merchant_order_id (orders scenario_store ! 0)
   \<and> \<bar>739281 - 739280 :: int\<bar> \<le> 3"
proof -
  have run: "fst (reconcile_transactions NoFault scenario_store) = Inr scenario_result"
    by (simp add: scenario_run)
  have mem: "scenario_pair \<in> set (matched_pairs scenario_result)"
    by (simp add: scenario_result_def)
  have x: "orders scenario_store ! 0 \<in> set (orders scenario_store)"
    "o_id (orders scenario_store ! 0) = mp_order_id scenario_pair"
    "o_order_date (orders scenario_store ! 0) = Some 739280"
    by (simp_all add: scenario_defs)
  have p: "payments scenario_store ! 0 \<in> set (payments scenario_store)"
    "p_id (payments scenario_store ! 0) = mp_payment_id scenario_pair"
    "p_payment_date (payments scenario_store ! 0) = Some 739281"
    by (simp_all add: scenario_defs)
  from matched_pairs_conform [OF scenario_pk_unique run mem] x p scenario_pk_unique run mem
  show ?thesis by blast
qed

section \<open>One-to-one matching\<close>

text \<open>
  C2. In the \<open>matched_pairs\<close> of a run no payment id and no order id occurs twice; under the
  unique constraint on \<open>merchant_order_id\<close> no merchant order identifier occurs twice either.
\<close>

theorem matching_one_to_one:
  assumes uniq: "pk_unique db"
    and run: "fst (reconcile_transactions fault db) = Inr res"
  shows "distinct (map mp_payment_id (matched_pairs res))
       \<and> distinct (map mp_order_id (matched_pairs res))
       \<and> (keys_unique db \<longrightarrow> distinct (map mp_merchant_order_id (matched_pairs res)))"
proof -
  from reconcile_result [OF run] have mp: "matched_pairs res = map mk_pair (run_matches db)"
    by simp
  have 1: "distinct (map mp_payment_id (matched_pairs res))"
    unfolding mp mp_payment_id_mk_pair run_matches_def by (rule matches_payment_ids_distinct)
  have "distinct (map o_id (query_completed_orders db))"
    using uniq unfolding pk_unique_def query_completed_orders_def
    by (simp add: distinct_map_filter)
  then have 2: "distinct (map mp_order_id (matched_pairs res))"
    unfolding mp mp_order_id_mk_pair run_matches_def by (rule matches_order_key_distinct)
  have 3: "distinct (map mp_merchant_order_id (matched_pairs res))" if "keys_unique db"
  proof -
    have "distinct (map o_merchant_order_id (query_completed_orders db))"
      using that unfolding keys_unique_def query_completed_orders_def
      by (simp add: distinct_map_filter)
    then show ?thesis
      unfolding mp mp_merchant_order_id_mk_pair run_matches_def
      by (rule matches_order_key_distinct)
  qed
  from 1 2 3 show ?thesis by blast
qed


theorem matching_one_to_one_witness:
  "pk_unique scenario_store
   \<and> fst (reconcile_transactions NoFault scenario_store) = Inr scenario_result
   \<and> distinct (map mp_payment_id (matched_pairs scenario_result))
   \<and> distinct (map mp_order_id (matched_pairs scenario_result))
   \<and> distinct (map mp_merchant_order_id (matched_pairs scenario_result))"
proof -
  have run: "fst (reconcile_transactions NoFault scenario_store) = Inr scenario_result"
    by (simp add: scenario_run)
  from matching_one_to_one [OF scenario_pk_unique run] scenario_pk_unique run
    scenario_keys_unique
  show ?thesis by blast
qed

lemma accepts_iff_spec_rules:
  "accepts x p \<longleftrightarrow> spec_rule2 x p \<and> spec_rule3 x p \<and> spec_rule4 x p"
  by (auto simp: accepts_def spec_rule2_def spec_rule3_def spec_rule4_def date_mismatch_def
      split: option.splits)

lemma spec_first_fit_matches:
  "spec_first_fit xs ps recorded =
     recorded @ map mk_pair (matches xs ps (set (map mp_payment_id recorded)))"
proof (induction xs arbitrary: recorded)
  case Nil
  show ?case by simp
next
  case (Cons x xs)
  let ?M = "set (map mp_payment_id recorded)"
  have scan: "find (\<lambda>p. p_id p \<notin> ?M \<and> spec_rule2 x p \<and> spec_rule3 x p \<and> spec_rule4 x p) ps
      = scan_payments x ?M ps"
    by (simp add: scan_payments_find accepts_iff_spec_rules)
  show ?case
  proof (cases "scan_payments x ?M ps")
    case None
    with scan Cons.IH [of recorded] show ?thesis by simp
  next
    case (Some p)
    let ?r = "recorded @ [\<lparr> mp_order_id = o_id x, mp_payment_id = p_id p,
        mp_merchant_order_id = o_merchant_order_id x, mp_amount = PyFloat (o_amount x) \<rparr>]"
    have M': "set (map mp_payment_id ?r) = insert (p_id p) ?M" by simp
    have "spec_first_fit (x # xs) ps recorded = spec_first_fit xs ps ?r"
      using scan Some by simp
    also have "\<dots> = ?r @ map mk_pair (matches xs ps (insert (p_id p) ?M))"
      unfolding Cons.IH [of ?r] M' ..
    also have "\<dots> = recorded @ map mk_pair (matches (x # xs) ps ?M)"
      using Some by (simp add: mk_pair_def)
    finally show ?thesis .
  qed
qed

lemma distinct_count_le_1:
  "distinct (map f xs) \<Longrightarrow> length (filter (\<lambda>y. f y = k) xs) \<le> 1"
  by (induction xs) (auto simp: image_iff filter_empty_conv)

lemma matches_order_keys_subset:
  "set (map (f \<circ> fst) (matches xs ps M)) \<subseteq> f ` set xs"
  using matches_orders_subset [of xs ps M] by auto

lemma unmatched_orders_count:
  "distinct (map f xs) \<Longrightarrow>
     length (filter (\<lambda>x. f x \<notin> set (map (f \<circ> fst) (matches xs ps M))) xs)
       + length (matches xs ps M) = length xs"
proof (induction xs arbitrary: M)
  case Nil
  show ?case by simp
next
  case (Cons y ys)
  from Cons.prems have d: "distinct (map f ys)" and n: "f y \<notin> f ` set ys" by auto
  show ?case
  proof (cases "scan_payments y M ps")
    case None
    have "f y \<notin> set (map (f \<circ> fst) (matches ys ps M))"
      using n matches_order_keys_subset [of f ys ps M] by blast
    with None Cons.IH [OF d, of M] show ?thesis by simp
  next
    case (Some q)
    let ?ms = "matches ys ps (insert (p_id q) M)"
    have "filter (\<lambda>x. f x \<notin> insert (f y) (set (map (f \<circ> fst) ?ms))) ys
        = filter (\<lambda>x. f x \<notin> set (map (f \<circ> fst) ?ms)) ys"
      using n by (intro filter_cong) (auto simp: image_iff)
    with Some Cons.IH [OF d, of "insert (p_id q) M"] show ?thesis by simp
  qed
qed

lemma filter_remove_one:
  "distinct (map f xs) \<Longrightarrow> x \<in> set xs \<Longrightarrow> f x \<notin> M \<Longrightarrow>
     Suc (length (filter (\<lambda>y. f y \<notin> insert (f x) M) xs)) = length (filter (\<lambda>y. f y \<notin> M) xs)"
proof (induction xs)
  case Nil
  then show ?case by simp
next
  case (Cons a as)
  from Cons.prems have d: "distinct (map f as)" and n: "f a \<notin> f ` set as" by auto
  show ?case
  proof (cases "a = x")
    case True
    have "filter (\<lambda>y. f y \<notin> insert (f x) M) as = filter (\<lambda>y. f y \<notin> M) as"
      using n True by (intro filter_cong) (auto simp: image_iff)
    with True Cons.prems show ?thesis by simp
  next
    case False
    with Cons.prems have x: "x \<in> set as" by simp
    with n have "f a \<noteq> f x" by force
    with Cons.IH [OF d x Cons.prems(3)] show ?thesis by simp
  qed
qed

lemma unmatched_payments_count:
  "distinct (map p_id ps) \<Longrightarrow>
     length (filter (\<lambda>p. p_id p \<notin> M \<union> set (map (p_id \<circ> snd) (matches xs ps M))) ps)
       + length (matches xs ps M) = length (filter (\<lambda>p. p_id p \<notin> M) ps)"
proof (induction xs arbitrary: M)
  case Nil
  show ?case by simp
next
  case (Cons y ys)
  show ?case
  proof (cases "scan_payments y M ps")
    case None
    with Cons.IH [OF Cons.prems, of M] show ?thesis by simp
  next
    case (Some q)
    let ?ms = "matches ys ps (insert (p_id q) M)"
    from scan_payments_Some [OF Some] have q: "q \<in> set ps" "p_id q \<notin> M" by auto
    have "length (filter (\<lambda>p. p_id p \<notin> insert (p_id q) M \<union> set (map (p_id \<circ> snd) ?ms)) ps)
        + length ?ms = length (filter (\<lambda>p. p_id p \<notin> insert (p_id q) M) ps)"
      by (rule Cons.IH [OF Cons.prems])
    moreover have "Suc (length (filter (\<lambda>p. p_id p \<notin> insert (p_id q) M) ps))
        = length (filter (\<lambda>p. p_id p \<notin> M) ps)"
      by (rule filter_remove_one [OF Cons.prems q])
    ultimately show ?thesis using Some by simp
  qed
qed

section \<open>First fit\<close>

text \<open>
  C4. The pairs recorded by a run are those of the first-fit procedure of the specification:
  orders in read order, each paired with the first payment in read order that is not the
  payment of an earlier pair and satisfies rules 2 to 4, one pair per order, nothing after
  the first satisfying payment being considered. With unique primary keys an order occurs
  in at most one pair.
\<close>

theorem matching_is_first_fit:
  assumes run: "fst (reconcile_transactions fault db) = Inr res"
  shows "matched_pairs res
           = spec_first_fit (query_completed_orders db) (query_completed_payments db) []
       \<and> (pk_unique db \<longrightarrow>
            (\<forall>x\<in>set (query_completed_orders db).
               length (filter (\<lambda>mp. mp_order_id mp = o_id x) (matched_pairs res)) \<le> 1))"
proof -
  from reconcile_result [OF run] have mp: "matched_pairs res = map mk_pair (run_matches db)"
    by simp
  have 1: "matched_pairs res
      = spec_first_fit (query_completed_orders db) (query_completed_payments db) []"
    unfolding mp by (simp add: spec_first_fit_matches run_matches_def)
  have 2: "length (filter (\<lambda>mp. mp_order_id mp = k) (matched_pairs res)) \<le> 1"
    if "pk_unique db" for k
  proof -
    have "distinct (map o_id (query_completed_orders db))"
      using that unfolding pk_unique_def query_completed_orders_def
      by (simp add: distinct_map_filter)
    then have "distinct (map mp_order_id (matched_pairs res))"
      unfolding mp mp_order_id_mk_pair run_matches_def by (rule matches_order_key_distinct)
    then show ?thesis by (rule distinct_count_le_1)
  qed
  from 1 2 show ?thesis by blast
qed

theorem matching_is_first_fit_witness:
  "fst (reconcile_transactions NoFault scenario_store) = Inr scenario_result
   \<and> matched_pairs scenario_result
       = spec_first_fit (query_completed_orders scenario_store)
           (query_completed_payments scenario_store) []
   \<and> spec_first_fit (query_completed_orders scenario_store)
           (query_completed_payments scenario_store) [] = [scenario_pair, scenario_pair2]
   \<and> length (filter (\<lambda>mp. mp_order_id mp = 1) (matched_pairs scenario_result)) \<le> 1"
proof -
  have run: "fst (reconcile_transactions NoFault scenario_store) = Inr scenario_result"
    by (simp add: scenario_run)
  have mem: "orders scenario_store ! 0 \<in> set (query_completed_orders scenario_store)"
    "o_id (orders scenario_store ! 0) = 1"
    by (simp_all add: scenario_defs query_completed_orders_def)
  have pairs: "matched_pairs scenario_result = [scenario_pair, scenario_pair2]"
    by (simp add: scenario_result_def)
  from matching_is_first_fit [OF run] scenario_pk_unique mem run pairs
  show ?thesis by metis
qed

section \<open>The result partitions the working set\<close>

text \<open>
  C10. In the result of a run, \<open>matched_count\<close> is the length of \<open>matched_pairs\<close>;
  \<open>unmatched_orders\<close> lists the merchant order identifiers of exactly the completed orders
  whose id is in no pair, \<open>unmatched_payments\<close> those of the completed payments whose id is in
  no pair; and \<open>matched_count\<close> plus the length of either list is the size of the
  corresponding working set.
\<close>

theorem result_partitions_working_set:
  assumes uniq: "pk_unique db"
    and run: "fst (reconcile_transactions fault db) = Inr res"
  shows "matched_count res = length (matched_pairs res)
       \<and> unmatched_orders res = map o_merchant_order_id
           (filter (\<lambda>x. o_id x \<notin> set (map mp_order_id (matched_pairs res)))
              (query_completed_orders db))
       \<and> unmatched_payments res = map p_merchant_order_id
           (filter (\<lambda>p. p_id p \<notin> set (map mp_payment_id (matched_pairs res)))
              (query_completed_payments db))
       \<and> matched_count res + length (unmatched_orders res) = length (query_completed_orders db)
       \<and> matched_count res + length (unmatched_payments res)
           = length (query_completed_payments db)"
proof -
  note r = reconcile_result [OF run]
  have mp: "matched_pairs res = map mk_pair (run_matches db)"
    and mc: "matched_count res = length (run_matches db)"
    and uo: "unmatched_orders res = map o_merchant_order_id
          (filter (\<lambda>x. o_id x \<notin> set (map (o_id \<circ> fst) (run_matches db)))
             (query_completed_orders db))"
    and up: "unmatched_payments res = map p_merchant_order_id
          (filter (\<lambda>p. p_id p \<notin> set (map (p_id \<circ> snd) (run_matches db)))
             (query_completed_payments db))"
    using r by simp_all
  have dx: "distinct (map o_id (query_completed_orders db))"
    and dp: "distinct (map p_id (query_completed_payments db))"
    using uniq unfolding pk_unique_def query_completed_orders_def query_completed_payments_def
    by (simp_all add: distinct_map_filter)
  have 1: "matched_count res = length (matched_pairs res)" by (simp add: mp mc)
  have 2: "unmatched_orders res = map o_merchant_order_id
           (filter (\<lambda>x. o_id x \<notin> set (map mp_order_id (matched_pairs res)))
              (query_completed_orders db))"
    unfolding mp mp_order_id_mk_pair by (rule uo)
  have 3: "unmatched_payments res = map p_merchant_order_id
           (filter (\<lambda>p. p_id p \<notin> set (map mp_payment_id (matched_pairs res)))
              (query_completed_payments db))"
    unfolding mp mp_payment_id_mk_pair by (rule up)
  have 4: "matched_count res + length (unmatched_orders res) = length (query_completed_orders db)"
    using unmatched_orders_count [OF dx, of "query_completed_payments db" "{}"]
    by (simp add: mc uo run_matches_def)
  have 5: "matched_count res + length (unmatched_payments res)
      = length (query_completed_payments db)"
    using unmatched_payments_count [OF dp, of "{}" "query_completed_orders db"]
    by (simp add: mc up run_matches_def)
  from 1 2 3 4 5 show ?thesis by blast
qed

theorem result_partitions_working_set_witness:
  "pk_unique scenario_store
   \<and> fst (reconcile_transactions NoFault scenario_store) = Inr scenario_result
   \<and> matched_count scenario_result = length (matched_pairs scenario_result)
   \<and> unmatched_orders scenario_result = map o_merchant_order_id
       (filter (\<lambda>x. o_id x \<notin> set (map mp_order_id (matched_pairs scenario_result)))
          (query_completed_orders scenario_store))
   \<and> unmatched_payments scenario_result = map p_merchant_order_id
       (filter (\<lambda>p. p_id p \<notin> set (map mp_payment_id (matched_pairs scenario_result)))
          (query_completed_payments scenario_store))
   \<and> matched_count scenario_result + length (unmatched_orders scenario_result) = 4
   \<and> matched_count scenario_result + length (unmatched_payments scenario_result) = 5"
proof -
  have run: "fst (reconcile_transactions NoFault scenario_store) = Inr scenario_result"
    by (simp add: scenario_run)
  have len: "length (query_completed_orders scenario_store) = 4"
    "length (query_completed_payments scenario_store) = 5"
    by (simp_all add: scenario_defs query_completed_orders_def query_completed_payments_def)
  from result_partitions_working_set [OF scenario_pk_unique run] scenario_pk_unique run
  show ?thesis unfolding len by blast
qed

section \<open>The commit\<close>

lemma fold_flush_order:
  "\<forall>d\<in>set ds. o_status d = reconciled \<Longrightarrow>
     fold flush_order ds rows =
       map (\<lambda>r. if o_id r \<in> o_id ` set ds then r\<lparr>o_status := reconciled\<rparr> else r) rows"
proof (induction ds arbitrary: rows)
  case Nil
  show ?case by simp
next
  case (Cons d ds)
  from Cons.prems have d: "o_status d = reconciled" and ds: "\<forall>d\<in>set ds. o_status d = reconciled"
    by simp_all
  show ?case
    unfolding fold_simps Cons.IH [OF ds] by (simp add: flush_order_def d)
qed

lemma fold_flush_payment:
  "\<forall>d\<in>set ds. p_status d = reconciled \<Longrightarrow>
     fold flush_payment ds rows =
       map (\<lambda>r. if p_id r \<in> p_id ` set ds then r\<lparr>p_status := reconciled\<rparr> else r) rows"
proof (induction ds arbitrary: rows)
  case Nil
  show ?case by simp
next
  case (Cons d ds)
  from Cons.prems have d: "p_status d = reconciled" and ds: "\<forall>d\<in>set ds. p_status d = reconciled"
    by simp_all
  show ?case
    unfolding fold_simps Cons.IH [OF ds] by (simp add: flush_payment_def d)
qed

lemma commit_final:
  "commit (match_loop (query_completed_orders db) (query_completed_payments db) init_state) db
     = committed db"
  unfolding match_loop_init commit_def committed_def matched_order_ids_def matched_payment_ids_def
  by (simp add: fold_flush_order fold_flush_payment image_image)

lemma reconcile_store:
  "snd (reconcile_transactions fault db) =
     (if fault = QueryFault \<or> fault = CommitFault then db else committed db)"
  by (cases fault) (simp_all add: reconcile_transactions_def Let_def commit_final)

lemma matched_order_ids_completed:
  assumes "pk_unique db" "r \<in> set (orders db)" "o_id r \<in> matched_order_ids db"
  shows "o_status r = completed"
proof -
  from assms(3) obtain x p where m: "(x, p) \<in> set (run_matches db)" and "o_id x = o_id r"
    unfolding matched_order_ids_def by auto
  with run_matches_sound(1,3) [OF m] assms(1,2) have "x = r"
    by (auto simp: pk_unique_def dest: distinct_map_eqD)
  with run_matches_sound(3) [OF m] show ?thesis by simp
qed

lemma matched_payment_ids_completed:
  assumes "pk_unique db" "r \<in> set (payments db)" "p_id r \<in> matched_payment_ids db"
  shows "p_status r = completed"
proof -
  from assms(3) obtain x p where m: "(x, p) \<in> set (run_matches db)" and "p_id p = p_id r"
    unfolding matched_payment_ids_def by auto
  with run_matches_sound(2,4) [OF m] assms(1,2) have "p = r"
    by (auto simp: pk_unique_def dest: distinct_map_eqD)
  with run_matches_sound(4) [OF m] show ?thesis by simp
qed

section \<open>A second run\<close>

lemma matches_exhaustive:
  "x \<in> set xs \<Longrightarrow> o_id x \<notin> set (map (o_id \<circ> fst) (matches xs ps M)) \<Longrightarrow> p \<in> set ps \<Longrightarrow>
     accepts x p \<Longrightarrow> p_id p \<in> M \<union> set (map (p_id \<circ> snd) (matches xs ps M))"
proof (induction xs arbitrary: M)
  case Nil
  then show ?case by simp
next
  case (Cons y ys)
  show ?case
  proof (cases "scan_payments y M ps")
    case None
    show ?thesis
    proof (cases "x = y")
      case True
      with None Cons.prems(3,4) have "p_id p \<in> M" by (auto simp: scan_payments_None)
      then show ?thesis by simp
    next
      case False
      with Cons.prems(1) have "x \<in> set ys" by simp
      from Cons.IH [OF this _ Cons.prems(3,4), of M] Cons.prems(2) None show ?thesis by simp
    qed
  next
    case (Some q)
    with Cons.prems(2) have ne: "o_id x \<noteq> o_id y"
      and rest: "o_id x \<notin> set (map (o_id \<circ> fst) (matches ys ps (insert (p_id q) M)))"
      by auto
    from ne Cons.prems(1) have "x \<in> set ys" by auto
    from Cons.IH [OF this rest Cons.prems(3,4)] Some show ?thesis by auto
  qed
qed

lemma matches_none:
  "\<forall>x\<in>set xs. \<forall>p\<in>set ps. \<not> accepts x p \<Longrightarrow> matches xs ps M = []"
proof (induction xs)
  case Nil
  show ?case by simp
next
  case (Cons y ys)
  then have "scan_payments y M ps = None" by (simp add: scan_payments_None)
  with Cons show ?case by simp
qed

lemma filter_map_cases:
  "(\<And>x. x \<in> set xs \<Longrightarrow> Q x \<Longrightarrow> g x = x \<and> P x) \<Longrightarrow> (\<And>x. x \<in> set xs \<Longrightarrow> \<not> Q x \<Longrightarrow> \<not> P (g x)) \<Longrightarrow>
     filter P (map g xs) = filter Q xs"
  by (induction xs) auto

lemma completed_orders_committed:
  "query_completed_orders (committed db)
     = filter (\<lambda>x. o_id x \<notin> matched_order_ids db) (query_completed_orders db)"
proof -
  have "filter (\<lambda>x. o_status x = completed)
          (map (\<lambda>r. if o_id r \<in> matched_order_ids db then r\<lparr>o_status := reconciled\<rparr> else r)
             (orders db))
      = filter (\<lambda>x. o_status x = completed \<and> o_id x \<notin> matched_order_ids db) (orders db)"
    by (rule filter_map_cases) auto
  then show ?thesis
    by (simp add: query_completed_orders_def committed_def conj_commute)
qed

lemma completed_payments_committed:
  "query_completed_payments (committed db)
     = filter (\<lambda>x. p_id x \<notin> matched_payment_ids db) (query_completed_payments db)"
proof -
  have "filter (\<lambda>x. p_status x = completed)
          (map (\<lambda>r. if p_id r \<in> matched_payment_ids db then r\<lparr>p_status := reconciled\<rparr> else r)
             (payments db))
      = filter (\<lambda>x. p_status x = completed \<and> p_id x \<notin> matched_payment_ids db) (payments db)"
    by (rule filter_map_cases) auto
  then show ?thesis
    by (simp add: query_completed_payments_def committed_def conj_commute)
qed

lemma run_matches_committed: "run_matches (committed db) = []"
proof -
  have "\<not> accepts x p"
    if "x \<in> set (query_completed_orders (committed db))"
      "p \<in> set (query_completed_payments (committed db))" for x p
  proof
    assume acc: "accepts x p"
    from that have x: "x \<in> set (query_completed_orders db)" "o_id x \<notin> matched_order_ids db"
      and p: "p \<in> set (query_completed_payments db)" "p_id p \<notin> matched_payment_ids db"
      by (simp_all add: completed_orders_committed completed_payments_committed)
    from matches_exhaustive [OF x(1) _ p(1) acc, of "{}"] x(2) p(2)
    show False by (simp add: matched_order_ids_def matched_payment_ids_def run_matches_def)
  qed
  then show ?thesis unfolding run_matches_def by (intro matches_none) blast
qed

section \<open>Status transitions of a run\<close>

text \<open>
  C9. Whatever happens during a run, it leaves the merchants alone and every order and
  payment row either entirely unchanged or, if its status was completed, changed in its
  status only, to reconciled. Rows that are pending, failed or reconciled are therefore
  unchanged.
\<close>

theorem status_only_advances:
  assumes uniq: "pk_unique db"
  shows "merchants (snd (reconcile_transactions fault db)) = merchants db
       \<and> list_all2 (\<lambda>r r'. r' = r \<or> (o_status r = completed \<and> r' = r\<lparr>o_status := reconciled\<rparr>))
           (orders db) (orders (snd (reconcile_transactions fault db)))
       \<and> list_all2 (\<lambda>r r'. r' = r \<or> (p_status r = completed \<and> r' = r\<lparr>p_status := reconciled\<rparr>))
           (payments db) (payments (snd (reconcile_transactions fault db)))"
proof (cases "fault = QueryFault \<or> fault = CommitFault")
  case True
  then have "snd (reconcile_transactions fault db) = db" by (simp add: reconcile_store)
  then show ?thesis by (simp add: list_all2_same)
next
  case False
  then have s: "snd (reconcile_transactions fault db) = committed db"
    by (simp add: reconcile_store)
  have 1: "merchants (committed db) = merchants db" by (simp add: committed_def)
  have 2: "list_all2 (\<lambda>r r'. r' = r \<or> (o_status r = completed \<and> r' = r\<lparr>o_status := reconciled\<rparr>))
           (orders db) (orders (committed db))"
    using matched_order_ids_completed [OF uniq]
    by (simp add: committed_def list_all2_map2 list_all2_same)
  have 3: "list_all2 (\<lambda>r r'. r' = r \<or> (p_status r = completed \<and> r' = r\<lparr>p_status := reconciled\<rparr>))
           (payments db) (payments (committed db))"
    using matched_payment_ids_completed [OF uniq]
    by (simp add: committed_def list_all2_map2 list_all2_same)
  from 1 2 3 show ?thesis unfolding s by blast
qed

theorem status_only_advances_witness:
  "pk_unique scenario_store
   \<and> snd (reconcile_transactions NoFault scenario_store) = scenario_store'
   \<and> list_all2 (\<lambda>r r'. r' = r \<or> (o_status r = completed \<and> r' = r\<lparr>o_status := reconciled\<rparr>))
        (orders scenario_store) (orders scenario_store')
   \<and> list_all2 (\<lambda>r r'. r' = r \<or> (p_status r = completed \<and> r' = r\<lparr>p_status := reconciled\<rparr>))
        (payments scenario_store) (payments scenario_store')
   \<and> orders scenario_store' ! 3 = orders scenario_store ! 3
   \<and> orders scenario_store' ! 0 = (orders scenario_store ! 0)\<lparr>o_status := reconciled\<rparr>"
proof -
  have s: "snd (reconcile_transactions NoFault scenario_store) = scenario_store'"
    by (simp add: scenario_run)
  have c: "orders scenario_store' ! 3 = orders scenario_store ! 3"
    "orders scenario_store' ! 0 = (orders scenario_store ! 0)\<lparr>o_status := reconciled\<rparr>"
    by (simp_all add: scenario_defs)
  from status_only_advances [OF scenario_pk_unique, of NoFault] scenario_pk_unique c
  show ?thesis unfolding s by blast
qed

section \<open>Idempotence at rest\<close>

text \<open>
  C3. When \<open>reconcile_transactions\<close> has run on a store, a second run on the store it left
  finds no match: it returns \<open>matched_count = 0\<close> and no pair, lists every completed record as
  unmatched, and leaves the store as it is.
\<close>

theorem second_run_matches_nothing:
  "reconcile_transactions NoFault (snd (reconcile_transactions NoFault db)) =
     (Inr \<lparr> matched_count = 0, matched_pairs = [],
            unmatched_orders = map o_merchant_order_id
              (query_completed_orders (snd (reconcile_transactions NoFault db))),
            unmatched_payments = map p_merchant_order_id
              (query_completed_payments (snd (reconcile_transactions NoFault db))) \<rparr>,
      snd (reconcile_transactions NoFault db))"
proof -
  have s: "snd (reconcile_transactions NoFault db) = committed db"
    by (simp add: reconcile_store)
  show ?thesis
    unfolding s
    by (simp add: reconcile_transactions_def Let_def match_loop_init commit_def
        run_matches_committed)
qed

theorem second_run_matches_nothing_witness:
  "reconcile_transactions NoFault scenario_store' =
     (Inr \<lparr> matched_count = 0, matched_pairs = [],
            unmatched_orders = [''ORDER_002'', ''ORDER_003''],
            unmatched_payments = [''ORDER_002'', ''ORDER_003'', ''ORDER_004''] \<rparr>,
      scenario_store')"
proof -
  have s: "snd (reconcile_transactions NoFault scenario_store) = scenario_store'"
    by (simp add: scenario_run)
  have q: "map o_merchant_order_id (query_completed_orders scenario_store')
      = [''ORDER_002'', ''ORDER_003'']"
    "map p_merchant_order_id (query_completed_payments scenario_store')
      = [''ORDER_002'', ''ORDER_003'', ''ORDER_004'']"
    by (simp_all add: scenario_defs query_completed_orders_def query_completed_payments_def)
  from second_run_matches_nothing [of scenario_store] show ?thesis unfolding s q .
qed

section \<open>Failure of a run\<close>

text \<open>
  C5, as the code has it. A run leaves the store either as it found it or with all status
  changes of the matching loop applied: \<open>db.commit()\<close> is the one place that writes, and it
  comes after the loop and before the unmatched lists and the result are built. A run that
  fails in a query or in the commit returns the 500 error instead of a result and leaves
  the store unchanged; a run in which nothing fails returns a result and the committed
  store.
\<close>

theorem commit_is_all_or_nothing:
  "(snd (reconcile_transactions fault db) = db
      \<or> snd (reconcile_transactions fault db)
          = commit (match_loop (query_completed_orders db) (query_completed_payments db)
                      init_state) db)
   \<and> (fault = QueryFault \<or> fault = CommitFault \<longrightarrow>
        reconcile_transactions fault db = (Inl reconciliation_error, db))
   \<and> (fault = NoFault \<longrightarrow>
        (\<exists>res. reconcile_transactions fault db
           = (Inr res, commit (match_loop (query_completed_orders db)
                 (query_completed_payments db) init_state) db)))"
  by (cases fault) (simp_all add: reconcile_transactions_def Let_def)

theorem commit_is_all_or_nothing_witness:
  "reconcile_transactions CommitFault scenario_store = (Inl reconciliation_error, scenario_store)
   \<and> reconcile_transactions QueryFault scenario_store = (Inl reconciliation_error, scenario_store)
   \<and> (\<exists>res. reconcile_transactions NoFault scenario_store = (Inr res, scenario_store'))"
proof -
  have c: "commit (match_loop (query_completed_orders scenario_store)
      (query_completed_payments scenario_store) init_state) scenario_store = scenario_store'"
    using scenario_run by (simp add: reconcile_transactions_def Let_def)
  from commit_is_all_or_nothing [of CommitFault scenario_store]
    commit_is_all_or_nothing [of QueryFault scenario_store]
    commit_is_all_or_nothing [of NoFault scenario_store]
  show ?thesis unfolding c by simp
qed

text \<open>
  The claim as stated fails when the run fails after the commit: the caller receives the
  500 error, and orders 1 and 6 and payments 11 and 16 are reconciled in the store.
\<close>

theorem failure_after_commit_counterexample:
  "reconcile_transactions ReloadFault scenario_store = (Inl reconciliation_error, scenario_store')
   \<and> scenario_store' \<noteq> scenario_store
   \<and> o_status (orders scenario_store ! 0) = completed
   \<and> o_status (orders scenario_store' ! 0) = reconciled"
proof -
  have c: "commit (match_loop (query_completed_orders scenario_store)
      (query_completed_payments scenario_store) init_state) scenario_store = scenario_store'"
    using scenario_run by (simp add: reconcile_transactions_def Let_def)
  have 1: "reconcile_transactions ReloadFault scenario_store
      = (Inl reconciliation_error, scenario_store')"
    by (simp add: reconcile_transactions_def Let_def c)
  have 2: "o_status (orders scenario_store ! 0) = completed"
    "o_status (orders scenario_store' ! 0) = reconciled"
    by (simp_all add: scenario_defs)
  from 2 have 3: "scenario_store' \<noteq> scenario_store" by auto
  from 1 2 3 show ?thesis by simp
qed

section \<open>The report\<close>

lemma total_or_0_sql_sum: "total_or_0 (sql_sum vals) = sum_list vals"
  by (simp add: total_or_0_def sql_sum_def)

lemma count_or_0_id: "count_or_0 c = c"
  by (simp add: count_or_0_def)

lemma dict_of_None: "k \<notin> fst ` set rows \<Longrightarrow> dict_of rows k = None"
  by (simp add: dict_of_def map_of_eq_None_iff)

lemma set_map_filter_keys:
  "set (List.map_filter f xs) = {y. \<exists>x\<in>set xs. f x = Some y}"
  by (induction xs) (auto split: option.splits)

lemma reconciled_by_merchant_keys:
  "fst ` set (reconciled_by_merchant db)
     = {k. \<exists>p\<in>set (payments db). p_status p = reconciled \<and> p_merchant_id p = Some k}"
  by (auto simp: reconciled_by_merchant_def Let_def image_image set_map_filter_keys)

lemma unmatched_orders_by_merchant_keys:
  "fst ` set (unmatched_orders_by_merchant db)
     = {k. \<exists>x\<in>set (orders db). o_status x = completed \<and> o_merchant_id x = Some k}"
  by (auto simp: unmatched_orders_by_merchant_def Let_def image_image set_map_filter_keys)

lemma unmatched_payments_by_merchant_keys:
  "fst ` set (unmatched_payments_by_merchant db)
     = {k. \<exists>p\<in>set (payments db). p_status p = completed \<and> p_merchant_id p = Some k}"
  by (auto simp: unmatched_payments_by_merchant_def Let_def image_image set_map_filter_keys)

lemma report_fields:
  "\<exists>ms. get_reconciliation_report False db =
     Inr \<lparr> total_reconciled_amount =
              PyFloat (sum_list (map p_amount (filter (\<lambda>p. p_status p = reconciled) (payments db)))),
            total_reconciled_count = length (filter (\<lambda>p. p_status p = reconciled) (payments db)),
            total_unmatched_orders = length (filter (\<lambda>x. o_status x = completed) (orders db)),
            total_unmatched_payments = length (filter (\<lambda>p. p_status p = completed) (payments db)),
            unmatched_orders_amount =
              PyFloat (sum_list (map o_amount (filter (\<lambda>x. o_status x = completed) (orders db)))),
            unmatched_payments_amount =
              PyFloat (sum_list (map p_amount (filter (\<lambda>p. p_status p = completed) (payments db)))),
            merchants_summary = ms \<rparr>"
  by (simp add: get_reconciliation_report_def Let_def total_or_0_sql_sum count_or_0_id sql_count_def)

text \<open>
  C7. On every store the report is produced (when no query raises), and in it
  \<open>total_reconciled_count\<close> is the number of payments with status reconciled,
  \<open>total_reconciled_amount\<close> is the float of the sum of their stored amounts,
  \<open>total_unmatched_orders\<close> is the number of orders with status completed and
  \<open>total_unmatched_payments\<close> the number of payments with status completed.
\<close>

theorem report_totals:
  "\<exists>rep. get_reconciliation_report False db = Inr rep
     \<and> total_reconciled_count rep = length (filter (\<lambda>p. p_status p = reconciled) (payments db))
     \<and> total_reconciled_amount rep
         = PyFloat (sum_list (map p_amount (filter (\<lambda>p. p_status p = reconciled) (payments db))))
     \<and> total_unmatched_orders rep = length (filter (\<lambda>x. o_status x = completed) (orders db))
     \<and> total_unmatched_payments rep = length (filter (\<lambda>p. p_status p = completed) (payments db))"
proof -
  from report_fields [of db] obtain ms where
    "get_reconciliation_report False db =
     Inr \<lparr> total_reconciled_amount =
              PyFloat (sum_list (map p_amount (filter (\<lambda>p. p_status p = reconciled) (payments db)))),
            total_reconciled_count = length (filter (\<lambda>p. p_status p = reconciled) (payments db)),
            total_unmatched_orders = length (filter (\<lambda>x. o_status x = completed) (orders db)),
            total_unmatched_payments = length (filter (\<lambda>p. p_status p = completed) (payments db)),
            unmatched_orders_amount =
              PyFloat (sum_list (map o_amount (filter (\<lambda>x. o_status x = completed) (orders db)))),
            unmatched_payments_amount =
              PyFloat (sum_list (map p_amount (filter (\<lambda>p. p_status p = completed) (payments db)))),
            merchants_summary = ms \<rparr>" ..
  then show ?thesis by simp
qed

theorem report_totals_witness:
  "\<exists>rep. get_reconciliation_report False scenario_store' = Inr rep
     \<and> total_reconciled_count rep = 3
     \<and> total_reconciled_amount rep = PyFloat 195
     \<and> total_unmatched_orders rep = 2
     \<and> total_unmatched_payments rep = 3"
proof -
  have v: "length (filter (\<lambda>p. p_status p = reconciled) (payments scenario_store')) = 3"
    "sum_list (map p_amount (filter (\<lambda>p. p_status p = reconciled) (payments scenario_store'))) = 195"
    "length (filter (\<lambda>x. o_status x = completed) (orders scenario_store')) = 2"
    "length (filter (\<lambda>p. p_status p = completed) (payments scenario_store')) = 3"
    by (simp_all add: scenario_defs)
  from report_totals [of scenario_store'] show ?thesis unfolding v .
qed


lemma summary_row_cases:
  assumes "get_reconciliation_report False db = Inr rep"
    and "row \<in> set (merchants_summary rep)"
  shows "ms_reconciled_count row =
           (case dict_of (map (\<lambda>r. (fst r, (fst (snd r), PyFloat (total_or_0 (snd (snd r))))))
                    (reconciled_by_merchant db)) (ms_merchant_id row) of
              None \<Rightarrow> 0 | Some d \<Rightarrow> fst d)"
    and "ms_reconciled_amount row =
           (case dict_of (map (\<lambda>r. (fst r, (fst (snd r), PyFloat (total_or_0 (snd (snd r))))))
                    (reconciled_by_merchant db)) (ms_merchant_id row) of
              None \<Rightarrow> PyFloat 0 | Some d \<Rightarrow> snd d)"
    and "ms_unmatched_orders row =
           (case dict_of (unmatched_orders_by_merchant db) (ms_merchant_id row) of
              None \<Rightarrow> 0 | Some c \<Rightarrow> c)"
    and "ms_unmatched_payments row =
           (case dict_of (unmatched_payments_by_merchant db) (ms_merchant_id row) of
              None \<Rightarrow> 0 | Some c \<Rightarrow> c)"
  using assms by (auto simp: get_reconciliation_report_def Let_def)

lemma report_empty_store:
  "get_reconciliation_report False empty_store =
     Inr \<lparr> total_reconciled_amount = PyFloat 0, total_reconciled_count = 0,
            total_unmatched_orders = 0, total_unmatched_payments = 0,
            unmatched_orders_amount = PyFloat 0, unmatched_payments_amount = PyFloat 0,
            merchants_summary = [] \<rparr>"
  by (simp add: get_reconciliation_report_def Let_def empty_store_def sql_sum_def sql_count_def
      total_or_0_def count_or_0_def reconciled_by_merchant_def unmatched_orders_by_merchant_def
      unmatched_payments_by_merchant_def)

text \<open>
  C8. On the empty store the report is produced, with every count 0, every amount
  \<open>float(0)\<close> and an empty per-merchant summary. On any store, a total over no rows is the
  float of zero, and a merchant's row of the summary has count 0 and amount \<open>0.0\<close> for
  a grouping in which that merchant has no record.
\<close>

theorem empty_groupings_are_zero:
  "get_reconciliation_report False empty_store =
     Inr \<lparr> total_reconciled_amount = PyFloat 0, total_reconciled_count = 0,
            total_unmatched_orders = 0, total_unmatched_payments = 0,
            unmatched_orders_amount = PyFloat 0, unmatched_payments_amount = PyFloat 0,
            merchants_summary = [] \<rparr>
   \<and> (\<exists>rep. get_reconciliation_report False db = Inr rep
        \<and> (filter (\<lambda>p. p_status p = reconciled) (payments db) = [] \<longrightarrow>
             total_reconciled_count rep = 0 \<and> total_reconciled_amount rep = PyFloat 0)
        \<and> (filter (\<lambda>x. o_status x = completed) (orders db) = [] \<longrightarrow>
             total_unmatched_orders rep = 0 \<and> unmatched_orders_amount rep = PyFloat 0)
        \<and> (filter (\<lambda>p. p_status p = completed) (payments db) = [] \<longrightarrow>
             total_unmatched_payments rep = 0 \<and> unmatched_payments_amount rep = PyFloat 0)
        \<and> (\<forall>row\<in>set (merchants_summary rep).
              (filter (\<lambda>p. p_status p = reconciled \<and> p_merchant_id p = Some (ms_merchant_id row))
                 (payments db) = [] \<longrightarrow>
                 ms_reconciled_count row = 0 \<and> ms_reconciled_amount row = PyFloat 0)
            \<and> (filter (\<lambda>x. o_status x = completed \<and> o_merchant_id x = Some (ms_merchant_id row))
                 (orders db) = [] \<longrightarrow> ms_unmatched_orders row = 0)
            \<and> (filter (\<lambda>p. p_status p = completed \<and> p_merchant_id p = Some (ms_merchant_id row))
                 (payments db) = [] \<longrightarrow> ms_unmatched_payments row = 0)))"
proof -
  from report_fields [of db] obtain rep where
    rep: "get_reconciliation_report False db = Inr rep"
    and tot: "total_reconciled_amount rep =
        PyFloat (sum_list (map p_amount (filter (\<lambda>p. p_status p = reconciled) (payments db))))"
      "total_reconciled_count rep = length (filter (\<lambda>p. p_status p = reconciled) (payments db))"
      "total_unmatched_orders rep = length (filter (\<lambda>x. o_status x = completed) (orders db))"
      "total_unmatched_payments rep = length (filter (\<lambda>p. p_status p = completed) (payments db))"
      "unmatched_orders_amount rep =
        PyFloat (sum_list (map o_amount (filter (\<lambda>x. o_status x = completed) (orders db))))"
      "unmatched_payments_amount rep =
        PyFloat (sum_list (map p_amount (filter (\<lambda>p. p_status p = completed) (payments db))))"
    by fastforce
  have r: "ms_reconciled_count row = 0 \<and> ms_reconciled_amount row = PyFloat 0"
    if "row \<in> set (merchants_summary rep)"
      and "filter (\<lambda>p. p_status p = reconciled \<and> p_merchant_id p = Some (ms_merchant_id row))
             (payments db) = []" for row
  proof -
    from that(2) have "ms_merchant_id row \<notin> fst ` set (reconciled_by_merchant db)"
      unfolding reconciled_by_merchant_keys by (auto simp: filter_empty_conv)
    then have "dict_of (map (\<lambda>r. (fst r, (fst (snd r), PyFloat (total_or_0 (snd (snd r))))))
        (reconciled_by_merchant db)) (ms_merchant_id row) = None"
      by (intro dict_of_None) (simp add: image_image)
    with summary_row_cases(1,2) [OF rep that(1)] show ?thesis by simp
  qed
  have uo: "ms_unmatched_orders row = 0"
    if "row \<in> set (merchants_summary rep)"
      and "filter (\<lambda>x. o_status x = completed \<and> o_merchant_id x = Some (ms_merchant_id row))
             (orders db) = []" for row
  proof -
    from that(2) have "ms_merchant_id row \<notin> fst ` set (unmatched_orders_by_merchant db)"
      unfolding unmatched_orders_by_merchant_keys by (auto simp: filter_empty_conv)
    then have "dict_of (unmatched_orders_by_merchant db) (ms_merchant_id row) = None"
      by (rule dict_of_None)
    with summary_row_cases(3) [OF rep that(1)] show ?thesis by simp
  qed
  have up: "ms_unmatched_payments row = 0"
    if "row \<in> set (merchants_summary rep)"
      and "filter (\<lambda>p. p_status p = completed \<and> p_merchant_id p = Some (ms_merchant_id row))
             (payments db) = []" for row
  proof -
    from that(2) have "ms_merchant_id row \<notin> fst ` set (unmatched_payments_by_merchant db)"
      unfolding unmatched_payments_by_merchant_keys by (auto simp: filter_empty_conv)
    then have "dict_of (unmatched_payments_by_merchant db) (ms_merchant_id row) = None"
      by (rule dict_of_None)
    with summary_row_cases(4) [OF rep that(1)] show ?thesis by simp
  qed
  have gen: "\<exists>rep. get_reconciliation_report False db = Inr rep
        \<and> (filter (\<lambda>p. p_status p = reconciled) (payments db) = [] \<longrightarrow>
             total_reconciled_count rep = 0 \<and> total_reconciled_amount rep = PyFloat 0)
        \<and> (filter (\<lambda>x. o_status x = completed) (orders db) = [] \<longrightarrow>
             total_unmatched_orders rep = 0 \<and> unmatched_orders_amount rep = PyFloat 0)
        \<and> (filter (\<lambda>p. p_status p = completed) (payments db) = [] \<longrightarrow>
             total_unmatched_payments rep = 0 \<and> unmatched_payments_amount rep = PyFloat 0)
        \<and> (\<forall>row\<in>set (merchants_summary rep).
              (filter (\<lambda>p. p_status p = reconciled \<and> p_merchant_id p = Some (ms_merchant_id row))
                 (payments db) = [] \<longrightarrow>
                 ms_reconciled_count row = 0 \<and> ms_reconciled_amount row = PyFloat 0)
            \<and> (filter (\<lambda>x. o_status x = completed \<and> o_merchant_id x = Some (ms_merchant_id row))
                 (orders db) = [] \<longrightarrow> ms_unmatched_orders row = 0)
            \<and> (filter (\<lambda>p. p_status p = completed \<and> p_merchant_id p = Some (ms_merchant_id row))
                 (payments db) = [] \<longrightarrow> ms_unmatched_payments row = 0))"
  proof (intro exI [of _ rep] conjI ballI impI)
    show "get_reconciliation_report False db = Inr rep" by (rule rep)
  qed (simp_all add: tot r uo up)
  from report_empty_store gen show ?thesis by (rule conjI)
qed

theorem empty_groupings_are_zero_witness:
  "get_reconciliation_report False one_order_store = Inr one_order_report
   \<and> filter (\<lambda>p. p_status p = reconciled) (payments one_order_store) = []
   \<and> total_reconciled_count one_order_report = 0
   \<and> total_reconciled_amount one_order_report = PyFloat 0
   \<and> filter (\<lambda>p. p_status p = completed) (payments one_order_store) = []
   \<and> total_unmatched_payments one_order_report = 0
   \<and> unmatched_payments_amount one_order_report = PyFloat 0
   \<and> ms_reconciled_count (hd (merchants_summary one_order_report)) = 0
   \<and> ms_reconciled_amount (hd (merchants_summary one_order_report)) = PyFloat 0
   \<and> ms_unmatched_payments (hd (merchants_summary one_order_report)) = 0"
proof -
  have rep: "get_reconciliation_report False one_order_store = Inr one_order_report"
    by code_simp
  have e: "filter (\<lambda>p. p_status p = reconciled) (payments one_order_store) = []"
    "filter (\<lambda>p. p_status p = completed) (payments one_order_store) = []"
    "\<And>k. filter (\<lambda>p. p_status p = reconciled \<and> p_merchant_id p = Some k)
       (payments one_order_store) = []"
    "\<And>k. filter (\<lambda>p. p_status p = completed \<and> p_merchant_id p = Some k)
       (payments one_order_store) = []"
    by (simp_all add: one_order_store_def)
  have row: "hd (merchants_summary one_order_report) \<in> set (merchants_summary one_order_report)"
    by (simp add: one_order_report_def)
  from empty_groupings_are_zero [of one_order_store] rep e row
  show ?thesis by auto
qed

section \<open>Duplicate identifiers on create\<close>

lemmas http_defs = HTTP_400_BAD_REQUEST_def HTTP_404_NOT_FOUND_def HTTP_409_CONFLICT_def
  HTTP_500_INTERNAL_SERVER_ERROR_def

lemma duplicate_entry_names_column:
  "sublist ''merchant_order_id'' (duplicate_entry val (pre @ ''merchant_order_id''))"
proof -
  have "duplicate_entry val (pre @ ''merchant_order_id'')
      = (''Duplicate entry '' @ quoted val @ '' for key '' @ CHR 0x27 # pre)
          @ ''merchant_order_id'' @ [CHR 0x27]"
    by (simp add: duplicate_entry_def quoted_def)
  then show ?thesis unfolding sublist_def by blast
qed

lemma orders_key_message:
  "sublist ''merchant_order_id'' (duplicate_entry val ''orders.ix_orders_merchant_order_id'')"
  using duplicate_entry_names_column [of val "''orders.ix_orders_''"] by simp

lemma payments_key_message:
  "sublist ''merchant_order_id'' (duplicate_entry val ''payments.ix_payments_merchant_order_id'')"
  using duplicate_entry_names_column [of val "''payments.ix_payments_''"] by simp

lemma find_None_merchant:
  "find (\<lambda>m. m_merchant_id m = k) ms = None \<longleftrightarrow> k \<notin> set (map m_merchant_id ms)"
  by (auto simp: find_None_iff)

lemma create_order_duplicate:
  assumes "oc_merchant_order_id req \<in> set (map o_merchant_order_id (orders db))"
  shows "create_order raises req db =
     (if oc_merchant_id req \<notin> set (map m_merchant_id (merchants db))
      then (Inl (HTTPException HTTP_404_NOT_FOUND
             (''Merchant with merchant_id '' @ quoted (oc_merchant_id req) @ '' not found'')), db)
      else if raises
      then (Inl (HTTPException HTTP_500_INTERNAL_SERVER_ERROR ''An unexpected error occurred''), db)
      else (Inl (HTTPException HTTP_400_BAD_REQUEST
             (''Order with merchant_order_id '' @ quoted (oc_merchant_order_id req)
                @ '' already exists'')), db))"
proof (cases "find (\<lambda>m. m_merchant_id m = oc_merchant_id req) (merchants db)")
  case None
  then have "oc_merchant_id req \<notin> set (map m_merchant_id (merchants db))"
    using find_None_merchant [of "oc_merchant_id req" "merchants db"] by blast
  then show ?thesis unfolding create_order_def None by simp
next
  case (Some merchant)
  then have "oc_merchant_id req \<in> set (map m_merchant_id (merchants db))"
    using find_None_merchant [of "oc_merchant_id req" "merchants db"] by auto
  with assms show ?thesis unfolding create_order_def Some
    by (simp add: save_order_def orders_key_message)
qed

lemma create_payment_duplicate:
  assumes "pc_merchant_order_id req \<in> set (map p_merchant_order_id (payments db))"
  shows "create_payment raises req db =
     (if pc_merchant_id req \<notin> set (map m_merchant_id (merchants db))
      then (Inl (HTTPException HTTP_404_NOT_FOUND
             (''Merchant with merchant_id '' @ quoted (pc_merchant_id req) @ '' not found'')), db)
      else if raises
      then (Inl (HTTPException HTTP_500_INTERNAL_SERVER_ERROR ''An unexpected error occurred''), db)
      else (Inl (HTTPException HTTP_400_BAD_REQUEST
             (''Payment with merchant_order_id '' @ quoted (pc_merchant_order_id req)
                @ '' already exists'')), db))"
proof (cases "find (\<lambda>m. m_merchant_id m = pc_merchant_id req) (merchants db)")
  case None
  then have "pc_merchant_id req \<notin> set (map m_merchant_id (merchants db))"
    using find_None_merchant [of "pc_merchant_id req" "merchants db"] by blast
  then show ?thesis unfolding create_payment_def None by simp
next
  case (Some merchant)
  then have "pc_merchant_id req \<in> set (map m_merchant_id (merchants db))"
    using find_None_merchant [of "pc_merchant_id req" "merchants db"] by auto
  with assms show ?thesis unfolding create_payment_def Some
    by (simp add: save_payment_def payments_key_message)
qed

text \<open>
  C6, as the code has it. A \<open>create_order\<close> (\<open>create_payment\<close>) request whose
  \<open>merchant_order_id\<close> is that of an existing order (payment) fails and creates no record. The
  error is never the 409 of a duplicate merchant: it is 404 when the merchant is unknown,
  and otherwise, when the database raises nothing but the integrity error, it is
  400 with the detail that the record already exists.
\<close>

theorem duplicate_id_rejected_with_400:
  "(oc_merchant_order_id oreq \<in> set (map o_merchant_order_id (orders db)) \<longrightarrow>
      snd (create_order raises oreq db) = db
    \<and> (\<exists>code detail. fst (create_order raises oreq db) = Inl (HTTPException code detail)
          \<and> code \<noteq> HTTP_409_CONFLICT)
    \<and> (oc_merchant_id oreq \<notin> set (map m_merchant_id (merchants db)) \<longrightarrow>
          fst (create_order raises oreq db) = Inl (HTTPException HTTP_404_NOT_FOUND
            (''Merchant with merchant_id '' @ quoted (oc_merchant_id oreq) @ '' not found'')))
    \<and> (oc_merchant_id oreq \<in> set (map m_merchant_id (merchants db)) \<and> \<not> raises \<longrightarrow>
          fst (create_order raises oreq db) = Inl (HTTPException HTTP_400_BAD_REQUEST
            (''Order with merchant_order_id '' @ quoted (oc_merchant_order_id oreq)
               @ '' already exists''))))
   \<and> (pc_merchant_order_id preq \<in> set (map p_merchant_order_id (payments db)) \<longrightarrow>
      snd (create_payment raises preq db) = db
    \<and> (\<exists>code detail. fst (create_payment raises preq db) = Inl (HTTPException code detail)
          \<and> code \<noteq> HTTP_409_CONFLICT)
    \<and> (pc_merchant_id preq \<notin> set (map m_merchant_id (merchants db)) \<longrightarrow>
          fst (create_payment raises preq db) = Inl (HTTPException HTTP_404_NOT_FOUND
            (''Merchant with merchant_id '' @ quoted (pc_merchant_id preq) @ '' not found'')))
    \<and> (pc_merchant_id preq \<in> set (map m_merchant_id (merchants db)) \<and> \<not> raises \<longrightarrow>
          fst (create_payment raises preq db) = Inl (HTTPException HTTP_400_BAD_REQUEST
            (''Payment with merchant_order_id '' @ quoted (pc_merchant_order_id preq)
               @ '' already exists''))))"
proof (intro conjI impI)
  assume "oc_merchant_order_id oreq \<in> set (map o_merchant_order_id (orders db))"
  note c = create_order_duplicate [OF this, of raises]
  show "snd (create_order raises oreq db) = db" unfolding c by simp
  show "\<exists>code detail. fst (create_order raises oreq db) = Inl (HTTPException code detail)
          \<and> code \<noteq> HTTP_409_CONFLICT"
    unfolding c by (simp add: http_defs)
  show "fst (create_order raises oreq db) = Inl (HTTPException HTTP_404_NOT_FOUND
            (''Merchant with merchant_id '' @ quoted (oc_merchant_id oreq) @ '' not found''))"
    if "oc_merchant_id oreq \<notin> set (map m_merchant_id (merchants db))"
    unfolding c using that by simp
  show "fst (create_order raises oreq db) = Inl (HTTPException HTTP_400_BAD_REQUEST
            (''Order with merchant_order_id '' @ quoted (oc_merchant_order_id oreq)
               @ '' already exists''))"
    if "oc_merchant_id oreq \<in> set (map m_merchant_id (merchants db)) \<and> \<not> raises"
    unfolding c using that by simp
next
  assume "pc_merchant_order_id preq \<in> set (map p_merchant_order_id (payments db))"
  note c = create_payment_duplicate [OF this, of raises]
  show "snd (create_payment raises preq db) = db" unfolding c by simp
  show "\<exists>code detail. fst (create_payment raises preq db) = Inl (HTTPException code detail)
          \<and> code \<noteq> HTTP_409_CONFLICT"
    unfolding c by (simp add: http_defs)
  show "fst (create_payment raises preq db) = Inl (HTTPException HTTP_404_NOT_FOUND
            (''Merchant with merchant_id '' @ quoted (pc_merchant_id preq) @ '' not found''))"
    if "pc_merchant_id preq \<notin> set (map m_merchant_id (merchants db))"
    unfolding c using that by simp
  show "fst (create_payment raises preq db) = Inl (HTTPException HTTP_400_BAD_REQUEST
            (''Payment with merchant_order_id '' @ quoted (pc_merchant_order_id preq)
               @ '' already exists''))"
    if "pc_merchant_id preq \<in> set (map m_merchant_id (merchants db)) \<and> \<not> raises"
    unfolding c using that by simp
qed

theorem duplicate_id_rejected_with_400_witness:
  "oc_merchant_order_id duplicate_order_request
     \<in> set (map o_merchant_order_id (orders scenario_store))
   \<and> pc_merchant_order_id duplicate_payment_request
     \<in> set (map p_merchant_order_id (payments scenario_store))
   \<and> oc_merchant_id duplicate_order_request \<in> set (map m_merchant_id (merchants scenario_store))
   \<and> pc_merchant_id duplicate_payment_request \<in> set (map m_merchant_id (merchants scenario_store))
   \<and> snd (create_order False duplicate_order_request scenario_store) = scenario_store
   \<and> fst (create_order False duplicate_order_request scenario_store)
       = Inl (HTTPException 400 (''Order with merchant_order_id '' @ quoted ''ORDER_001''
           @ '' already exists''))
   \<and> snd (create_payment False duplicate_payment_request scenario_store) = scenario_store
   \<and> fst (create_payment False duplicate_payment_request scenario_store)
       = Inl (HTTPException 400 (''Payment with merchant_order_id '' @ quoted ''ORDER_001''
           @ '' already exists''))"
proof -
  have h: "oc_merchant_order_id duplicate_order_request
       \<in> set (map o_merchant_order_id (orders scenario_store))"
    "pc_merchant_order_id duplicate_payment_request
       \<in> set (map p_merchant_order_id (payments scenario_store))"
    "oc_merchant_id duplicate_order_request \<in> set (map m_merchant_id (merchants scenario_store))"
    "pc_merchant_id duplicate_payment_request \<in> set (map m_merchant_id (merchants scenario_store))"
    by (simp_all add: scenario_defs duplicate_order_request_def duplicate_payment_request_def)
  have v: "oc_merchant_order_id duplicate_order_request = ''ORDER_001''"
    "pc_merchant_order_id duplicate_payment_request = ''ORDER_001''"
    by (simp_all add: duplicate_order_request_def duplicate_payment_request_def)
  from duplicate_id_rejected_with_400
    [of duplicate_order_request scenario_store False duplicate_payment_request] h
  show ?thesis unfolding v http_defs by simp
qed

text \<open>
  The claim as stated fails on a store that holds merchant \<open>M1\<close> and order \<open>ORDER_001\<close>: a
  second \<open>ORDER_001\<close> is answered with status 400, while a second \<open>M1\<close> is answered with 409.
\<close>

theorem duplicate_order_not_conflict_counterexample:
  "oc_merchant_order_id duplicate_order_request
     \<in> set (map o_merchant_order_id (orders scenario_store))
   \<and> fst (create_order False duplicate_order_request scenario_store)
       = Inl (HTTPException 400 (''Order with merchant_order_id '' @ quoted ''ORDER_001''
           @ '' already exists''))
   \<and> fst (create_merchant False duplicate_merchant_request scenario_store)
       = Inl (HTTPException 409 (''Merchant '' @ quoted ''M1'' @ '' already exists''))
   \<and> \<not> (\<exists>detail. fst (create_order False duplicate_order_request scenario_store)
           = Inl (HTTPException HTTP_409_CONFLICT detail))"
proof -
  have 1: "oc_merchant_order_id duplicate_order_request
       \<in> set (map o_merchant_order_id (orders scenario_store))"
    by (simp add: scenario_defs duplicate_order_request_def)
  have 2: "fst (create_order False duplicate_order_request scenario_store)
       = Inl (HTTPException 400 (''Order with merchant_order_id '' @ quoted ''ORDER_001''
           @ '' already exists''))"
    by code_simp
  have 3: "fst (create_merchant False duplicate_merchant_request scenario_store)
       = Inl (HTTPException 409 (''Merchant '' @ quoted ''M1'' @ '' already exists''))"
    by code_simp
  have 4: "\<not> (\<exists>detail. fst (create_order False duplicate_order_request scenario_store)
           = Inl (HTTPException HTTP_409_CONFLICT detail))"
    unfolding 2 by (simp add: http_defs)
  from 1 2 3 4 show ?thesis by blast
qed

end
